theory Spec2Isabelle
  imports Main "HOL-Library.Multiset"
begin

section \<open>Data model\<close>

text \<open>
  The rows of the six tables, with the columns that \<^verbatim>\<open>server/storage.ts\<close> and the
  route handlers read or write. Timestamps are milliseconds since the epoch, as
  \<^verbatim>\<open>Date.now()\<close> counts them. A nullable column is an \<open>option\<close>. The table
  declarations themselves are in \<^verbatim>\<open>@shared/schema\<close>, outside the sources: column
  defaults and constraints (uniqueness, foreign keys) are therefore not part of the model,
  and a table is the list of its rows.
\<close>

type_synonym timestamp = int

record user =
  user_id :: string
  user_username :: "string option"
  user_isAdmin :: "bool option"
  user_isVerified :: "bool option"
  user_isBanned :: "bool option"
  user_bannedReason :: "string option"
  user_createdAt :: timestamp
  user_updatedAt :: timestamp

record post =
  post_id :: int
  post_userId :: string
  post_caption :: "string option"
  post_imageUrl :: string
  post_location :: "string option"
  post_createdAt :: timestamp

record like =
  like_userId :: string
  like_postId :: int

record comment =
  comment_id :: int
  comment_postId :: int
  comment_userId :: string
  comment_content :: string
  comment_createdAt :: timestamp

record follow =
  follow_followerId :: string
  follow_followingId :: string

record story =
  story_id :: int
  story_userId :: string
  story_mediaUrl :: string
  story_createdAt :: timestamp
  story_expiresAt :: timestamp

text \<open>
  The store: the six tables and the three serial counters that number posts, comments and
  stories.
\<close>

record db =
  users :: "user list"
  posts :: "post list"
  likes :: "like list"
  comments :: "comment list"
  follows :: "follow list"
  stories :: "story list"
  post_seq :: int
  comment_seq :: int
  story_seq :: int

definition empty_db :: db where
  "empty_db = \<lparr>users = [], posts = [], likes = [], comments = [], follows = [],
     stories = [], post_seq = 0, comment_seq = 0, story_seq = 0\<rparr>"

text \<open>What a statement or a handler can raise.\<close>

datatype error = StoreError | ZodError

section \<open>Query building blocks\<close>

text \<open>
  \<^verbatim>\<open>.orderBy(desc(col))\<close>: rows by descending key. The store leaves the order of rows
  with equal keys open; the model keeps them in table order.
\<close>

definition orderBy_desc :: "('a \<Rightarrow> int) \<Rightarrow> 'a list \<Rightarrow> 'a list" where
  "orderBy_desc col rows = sort_key (\<lambda>r. - col r) rows"

text \<open>
  \<^verbatim>\<open>.limit(n).offset(k)\<close>. The query builder writes a \<^verbatim>\<open>LIMIT\<close> clause only for
  \<open>n \<ge> 0\<close>: with a negative \<open>n\<close> the statement has no limit and every row comes
  back. It writes the \<^verbatim>\<open>OFFSET\<close> clause for every \<open>k\<close> but 0. The store rejects a
  negative \<^verbatim>\<open>OFFSET\<close>, and a \<^verbatim>\<open>LIMIT\<close> or \<^verbatim>\<open>OFFSET\<close> from \<open>2^63\<close> on, which
  is outside its 64-bit integers; the statement then raises.
\<close>

definition limit_offset :: "int \<Rightarrow> int \<Rightarrow> 'a list \<Rightarrow> error + 'a list" where
  "limit_offset lim off rows =
     (if off < 0 \<or> 2 ^ 63 \<le> off \<or> 2 ^ 63 \<le> lim then Inl StoreError
      else Inr (let skipped = drop (nat off) rows
                in if lim < 0 then skipped else take (nat lim) skipped))"

text \<open>\<^verbatim>\<open>const [row] = await ...\<close>: the first row, or \<^verbatim>\<open>undefined\<close>.\<close>

definition first_row :: "'a list \<Rightarrow> 'a option" where
  "first_row rows = (case rows of [] \<Rightarrow> None | r # _ \<Rightarrow> Some r)"

section \<open>Persistence operations (server/storage.ts)\<close>

subsection \<open>Users\<close>

definition getUser :: "string \<Rightarrow> db \<Rightarrow> user option" where
  "getUser id' d = first_row (filter (\<lambda>u. user_id u = id') (users d))"

definition getUserByUsername :: "string \<Rightarrow> db \<Rightarrow> user option" where
  "getUserByUsername username d =
     first_row (filter (\<lambda>u. user_username u = Some username) (users d))"

text \<open>
  \<^verbatim>\<open>Partial<User>\<close> and \<^verbatim>\<open>UpsertUser\<close>: for every column but the key, either no
  value (\<open>None\<close>) or the value to store.
\<close>

record user_patch =
  patch_username :: "string option option"
  patch_isAdmin :: "bool option option"
  patch_isVerified :: "bool option option"
  patch_isBanned :: "bool option option"
  patch_bannedReason :: "string option option"

definition no_patch :: user_patch where
  "no_patch = \<lparr>patch_username = None, patch_isAdmin = None, patch_isVerified = None,
     patch_isBanned = None, patch_bannedReason = None\<rparr>"

definition set_columns :: "user_patch \<Rightarrow> timestamp \<Rightarrow> user \<Rightarrow> user" where
  "set_columns p now u =
     u\<lparr>user_username := (case patch_username p of None \<Rightarrow> user_username u | Some v \<Rightarrow> v),
       user_isAdmin := (case patch_isAdmin p of None \<Rightarrow> user_isAdmin u | Some v \<Rightarrow> v),
       user_isVerified := (case patch_isVerified p of None \<Rightarrow> user_isVerified u | Some v \<Rightarrow> v),
       user_isBanned := (case patch_isBanned p of None \<Rightarrow> user_isBanned u | Some v \<Rightarrow> v),
       user_bannedReason :=
         (case patch_bannedReason p of None \<Rightarrow> user_bannedReason u | Some v \<Rightarrow> v),
       user_updatedAt := now\<rparr>"

text \<open>\<^verbatim>\<open>db.update(users).set(...).where(eq(users.id, id)).returning()\<close>\<close>

definition update_users :: "string \<Rightarrow> user_patch \<Rightarrow> timestamp \<Rightarrow> db \<Rightarrow> user option \<times> db" where
  "update_users id' p now d =
     (let users' = map (\<lambda>u. if user_id u = id' then set_columns p now u else u) (users d)
      in (first_row (filter (\<lambda>u. user_id u = id') users'), d\<lparr>users := users'\<rparr>))"

definition upsertUser :: "string \<Rightarrow> user_patch \<Rightarrow> timestamp \<Rightarrow> db \<Rightarrow> user option \<times> db" where
  "upsertUser id' userData now d =
     (if \<exists>u \<in> set (users d). user_id u = id' then update_users id' userData now d
      else
        (let u = set_columns userData now
                   \<lparr>user_id = id', user_username = None, user_isAdmin = None,
                    user_isVerified = None, user_isBanned = None, user_bannedReason = None,
                    user_createdAt = now, user_updatedAt = now\<rparr>
         in (Some u, d\<lparr>users := users d @ [u]\<rparr>)))"

definition updateUserProfile :: "string \<Rightarrow> user_patch \<Rightarrow> timestamp \<Rightarrow> db \<Rightarrow> user option \<times> db" where
  "updateUserProfile id' data now d = update_users id' data now d"

subsection \<open>Posts\<close>

record insert_post =
  new_post_userId :: string
  new_post_caption :: "string option"
  new_post_imageUrl :: string
  new_post_location :: "string option"

definition createPost :: "insert_post \<Rightarrow> timestamp \<Rightarrow> db \<Rightarrow> post \<times> db" where
  "createPost p now d =
     (let newPost = \<lparr>post_id = post_seq d + 1, post_userId = new_post_userId p,
                      post_caption = new_post_caption p, post_imageUrl = new_post_imageUrl p,
                      post_location = new_post_location p, post_createdAt = now\<rparr>
      in (newPost, d\<lparr>posts := posts d @ [newPost], post_seq := post_seq d + 1\<rparr>))"

definition getPost :: "int \<Rightarrow> db \<Rightarrow> post option" where
  "getPost id' d = first_row (filter (\<lambda>p. post_id p = id') (posts d))"

definition getPosts :: "int \<Rightarrow> int \<Rightarrow> db \<Rightarrow> error + post list" where
  "getPosts lim off d = limit_offset lim off (orderBy_desc post_createdAt (posts d))"

definition getPostsByUserId :: "string \<Rightarrow> db \<Rightarrow> post list" where
  "getPostsByUserId userId d =
     orderBy_desc post_createdAt (filter (\<lambda>p. post_userId p = userId) (posts d))"

text \<open>
  \<^verbatim>\<open>deletePost\<close> and \<^verbatim>\<open>deletePostAsAdmin\<close> are three statements in a row; each is a
  function of its own, so that the state between them can be named.
\<close>

definition delete_likes_of :: "int \<Rightarrow> db \<Rightarrow> db" where
  "delete_likes_of id' d = d\<lparr>likes := filter (\<lambda>l. \<not> like_postId l = id') (likes d)\<rparr>"

definition delete_comments_of :: "int \<Rightarrow> db \<Rightarrow> db" where
  "delete_comments_of id' d =
     d\<lparr>comments := filter (\<lambda>c. \<not> comment_postId c = id') (comments d)\<rparr>"

definition delete_related :: "int \<Rightarrow> db \<Rightarrow> db" where
  "delete_related id' d = delete_comments_of id' (delete_likes_of id' d)"

definition deletePost :: "int \<Rightarrow> string \<Rightarrow> db \<Rightarrow> db" where
  "deletePost id' userId d =
     (let d' = delete_related id' d
      in d'\<lparr>posts := filter (\<lambda>p. \<not> (post_id p = id' \<and> post_userId p = userId)) (posts d')\<rparr>)"

definition deletePostAsAdmin :: "int \<Rightarrow> db \<Rightarrow> db" where
  "deletePostAsAdmin id' d =
     (let d' = delete_related id' d
      in d'\<lparr>posts := filter (\<lambda>p. \<not> post_id p = id') (posts d')\<rparr>)"

subsection \<open>Likes\<close>

definition like_matches :: "string \<Rightarrow> int \<Rightarrow> like \<Rightarrow> bool" where
  "like_matches userId postId l \<longleftrightarrow> like_userId l = userId \<and> like_postId l = postId"

definition toggleLike :: "string \<Rightarrow> int \<Rightarrow> db \<Rightarrow> bool \<times> db" where
  "toggleLike userId postId d =
     (let existingLike = take 1 (filter (like_matches userId postId) (likes d))
      in if length existingLike > 0
         then (False, d\<lparr>likes := filter (\<lambda>l. \<not> like_matches userId postId l) (likes d)\<rparr>)
         else (True, d\<lparr>likes := likes d @ [\<lparr>like_userId = userId, like_postId = postId\<rparr>]\<rparr>))"

definition getLikeCount :: "int \<Rightarrow> db \<Rightarrow> nat" where
  "getLikeCount postId d = length (filter (\<lambda>l. like_postId l = postId) (likes d))"

definition isPostLiked :: "string \<Rightarrow> int \<Rightarrow> db \<Rightarrow> bool" where
  "isPostLiked userId postId d =
     (case first_row (take 1 (filter (like_matches userId postId) (likes d))) of
        None \<Rightarrow> False | Some _ \<Rightarrow> True)"

subsection \<open>Comments\<close>

record insert_comment =
  new_comment_postId :: int
  new_comment_userId :: string
  new_comment_content :: string

definition createComment :: "insert_comment \<Rightarrow> timestamp \<Rightarrow> db \<Rightarrow> comment \<times> db" where
  "createComment c now d =
     (let newComment = \<lparr>comment_id = comment_seq d + 1, comment_postId = new_comment_postId c,
                         comment_userId = new_comment_userId c,
                         comment_content = new_comment_content c, comment_createdAt = now\<rparr>
      in (newComment,
          d\<lparr>comments := comments d @ [newComment], comment_seq := comment_seq d + 1\<rparr>))"

definition getCommentsByPostId :: "int \<Rightarrow> db \<Rightarrow> comment list" where
  "getCommentsByPostId postId d =
     orderBy_desc comment_createdAt (filter (\<lambda>c. comment_postId c = postId) (comments d))"

definition deleteComment :: "int \<Rightarrow> string \<Rightarrow> db \<Rightarrow> db" where
  "deleteComment id' userId d =
     d\<lparr>comments := filter (\<lambda>c. \<not> (comment_id c = id' \<and> comment_userId c = userId)) (comments d)\<rparr>"

subsection \<open>Follows\<close>

definition follow_matches :: "string \<Rightarrow> string \<Rightarrow> follow \<Rightarrow> bool" where
  "follow_matches followerId followingId f \<longleftrightarrow>
     follow_followerId f = followerId \<and> follow_followingId f = followingId"

definition toggleFollow :: "string \<Rightarrow> string \<Rightarrow> db \<Rightarrow> bool \<times> db" where
  "toggleFollow followerId followingId d =
     (let existingFollow = take 1 (filter (follow_matches followerId followingId) (follows d))
      in if length existingFollow > 0
         then (False,
               d\<lparr>follows := filter (\<lambda>f. \<not> follow_matches followerId followingId f) (follows d)\<rparr>)
         else (True,
               d\<lparr>follows := follows d @
                    [\<lparr>follow_followerId = followerId, follow_followingId = followingId\<rparr>]\<rparr>))"

definition getFollowerCount :: "string \<Rightarrow> db \<Rightarrow> nat" where
  "getFollowerCount userId d = length (filter (\<lambda>f. follow_followingId f = userId) (follows d))"

definition getFollowingCount :: "string \<Rightarrow> db \<Rightarrow> nat" where
  "getFollowingCount userId d = length (filter (\<lambda>f. follow_followerId f = userId) (follows d))"

definition isFollowing :: "string \<Rightarrow> string \<Rightarrow> db \<Rightarrow> bool" where
  "isFollowing followerId followingId d =
     (case first_row (take 1 (filter (follow_matches followerId followingId) (follows d))) of
        None \<Rightarrow> False | Some _ \<Rightarrow> True)"

subsection \<open>Stories\<close>

text \<open>
  \<^verbatim>\<open>InsertStory\<close>. A caller may pass an \<^verbatim>\<open>expiresAt\<close> of its own; in
  \<^verbatim>\<open>{ ...story, expiresAt }\<close> the computed one comes last and wins. \<^verbatim>\<open>createStory\<close>
  reads the application's clock (\<open>now\<close>, \<^verbatim>\<open>Date.now()\<close>); the \<^verbatim>\<open>createdAt\<close> column is
  filled in by the store at the insert (\<open>insertedAt\<close>).
\<close>

record insert_story =
  new_story_userId :: string
  new_story_mediaUrl :: string
  new_story_expiresAt :: "timestamp option"

definition createStory :: "insert_story \<Rightarrow> timestamp \<Rightarrow> timestamp \<Rightarrow> db \<Rightarrow> story \<times> db" where
  "createStory s now insertedAt d =
     (let expiresAt = now + 24 * 60 * 60 * 1000;
          newStory = \<lparr>story_id = story_seq d + 1, story_userId = new_story_userId s,
                       story_mediaUrl = new_story_mediaUrl s, story_createdAt = insertedAt,
                       story_expiresAt = expiresAt\<rparr>
      in (newStory, d\<lparr>stories := stories d @ [newStory], story_seq := story_seq d + 1\<rparr>))"

definition getActiveStories :: "timestamp \<Rightarrow> db \<Rightarrow> story list" where
  "getActiveStories now d =
     orderBy_desc story_createdAt (filter (\<lambda>s. story_expiresAt s > now) (stories d))"

definition deleteExpiredStories :: "timestamp \<Rightarrow> db \<Rightarrow> db" where
  "deleteExpiredStories now d =
     d\<lparr>stories := filter (\<lambda>s. \<not> story_expiresAt s < now) (stories d)\<rparr>"

subsection \<open>Admin operations\<close>

definition getAllUsers :: "int \<Rightarrow> int \<Rightarrow> db \<Rightarrow> error + user list" where
  "getAllUsers lim off d = limit_offset lim off (orderBy_desc user_createdAt (users d))"

definition banUser :: "string \<Rightarrow> string \<Rightarrow> timestamp \<Rightarrow> db \<Rightarrow> user option \<times> db" where
  "banUser userId reason now d =
     update_users userId
       (no_patch\<lparr>patch_isBanned := Some (Some True), patch_bannedReason := Some (Some reason)\<rparr>)
       now d"

definition unbanUser :: "string \<Rightarrow> timestamp \<Rightarrow> db \<Rightarrow> user option \<times> db" where
  "unbanUser userId now d =
     update_users userId
       (no_patch\<lparr>patch_isBanned := Some (Some False), patch_bannedReason := Some None\<rparr>) now d"

definition verifyUser :: "string \<Rightarrow> timestamp \<Rightarrow> db \<Rightarrow> user option \<times> db" where
  "verifyUser userId now d =
     update_users userId (no_patch\<lparr>patch_isVerified := Some (Some True)\<rparr>) now d"

definition unverifyUser :: "string \<Rightarrow> timestamp \<Rightarrow> db \<Rightarrow> user option \<times> db" where
  "unverifyUser userId now d =
     update_users userId (no_patch\<lparr>patch_isVerified := Some (Some False)\<rparr>) now d"

definition makeAdmin :: "string \<Rightarrow> timestamp \<Rightarrow> db \<Rightarrow> user option \<times> db" where
  "makeAdmin userId now d =
     update_users userId (no_patch\<lparr>patch_isAdmin := Some (Some True)\<rparr>) now d"

definition removeAdmin :: "string \<Rightarrow> timestamp \<Rightarrow> db \<Rightarrow> user option \<times> db" where
  "removeAdmin userId now d =
     update_users userId (no_patch\<lparr>patch_isAdmin := Some (Some False)\<rparr>) now d"

subsection \<open>The writing operations as one step function\<close>

text \<open>
  Every operation of \<^verbatim>\<open>IStorage\<close> that writes, with its arguments and the clock
  readings it takes. The reading operations leave the store as it is and are not listed.
\<close>

datatype operation =
    UpsertUser string user_patch timestamp
  | UpdateUserProfile string user_patch timestamp
  | CreatePost insert_post timestamp
  | DeletePost int string
  | ToggleLike string int
  | CreateComment insert_comment timestamp
  | DeleteComment int string
  | ToggleFollow string string
  | CreateStory insert_story timestamp timestamp
  | DeleteExpiredStories timestamp
  | BanUser string string timestamp
  | UnbanUser string timestamp
  | VerifyUser string timestamp
  | UnverifyUser string timestamp
  | MakeAdmin string timestamp
  | RemoveAdmin string timestamp
  | DeletePostAsAdmin int

fun exec :: "operation \<Rightarrow> db \<Rightarrow> db" where
  "exec (UpsertUser id' userData now) d = snd (upsertUser id' userData now d)"
| "exec (UpdateUserProfile id' data now) d = snd (updateUserProfile id' data now d)"
| "exec (CreatePost p now) d = snd (createPost p now d)"
| "exec (DeletePost id' userId) d = deletePost id' userId d"
| "exec (ToggleLike userId postId) d = snd (toggleLike userId postId d)"
| "exec (CreateComment c now) d = snd (createComment c now d)"
| "exec (DeleteComment id' userId) d = deleteComment id' userId d"
| "exec (ToggleFollow followerId followingId) d = snd (toggleFollow followerId followingId d)"
| "exec (CreateStory s now insertedAt) d = snd (createStory s now insertedAt d)"
| "exec (DeleteExpiredStories now) d = deleteExpiredStories now d"
| "exec (BanUser userId reason now) d = snd (banUser userId reason now d)"
| "exec (UnbanUser userId now) d = snd (unbanUser userId now d)"
| "exec (VerifyUser userId now) d = snd (verifyUser userId now d)"
| "exec (UnverifyUser userId now) d = snd (unverifyUser userId now d)"
| "exec (MakeAdmin userId now) d = snd (makeAdmin userId now d)"
| "exec (RemoveAdmin userId now) d = snd (removeAdmin userId now d)"
| "exec (DeletePostAsAdmin id') d = deletePostAsAdmin id' d"

text \<open>The stores that a run of operations builds from the empty one.\<close>

fun run :: "operation list \<Rightarrow> db \<Rightarrow> db" where
  "run [] d = d"
| "run (x # xs) d = run xs (exec x d)"

subsection \<open>Hashtags\<close>

text \<open>
  The two character classes of the store's regular expressions, on ASCII: \<^verbatim>\<open>\s\<close>
  (space, tab, line feed, vertical tab, form feed, carriage return) and \<^verbatim>\<open>\w\<close>
  (letters, digits and the underscore).
\<close>

definition is_space :: "char \<Rightarrow> bool" where
  "is_space c \<longleftrightarrow> (let n = (of_char c :: nat) in n = 32 \<or> (9 \<le> n \<and> n \<le> 13))"

definition is_word :: "char \<Rightarrow> bool" where
  "is_word c \<longleftrightarrow>
     (let n = (of_char c :: nat)
      in (48 \<le> n \<and> n \<le> 57) \<or> (65 \<le> n \<and> n \<le> 90) \<or> (97 \<le> n \<and> n \<le> 122) \<or> n = 95)"

text \<open>
  \<^verbatim>\<open>regexp_split_to_array(caption, '\s+')\<close>: the pieces between the maximal runs of
  white space. \<open>inrun\<close> says that the character before was white space; \<open>cur\<close> is the
  piece being read, backwards. White space at either end gives an empty piece there.
\<close>

fun split_pieces :: "bool \<Rightarrow> string \<Rightarrow> string \<Rightarrow> string list" where
  "split_pieces inrun cur [] = [rev cur]"
| "split_pieces inrun cur (c # cs) =
     (if is_space c
      then (if inrun then split_pieces True cur cs else rev cur # split_pieces True [] cs)
      else split_pieces False (c # cur) cs)"

definition regexp_split_to_array :: "string \<Rightarrow> string list" where
  "regexp_split_to_array caption = split_pieces False [] caption"

text \<open>\<^verbatim>\<open>caption ~ '#\w+'\<close>: a \<^verbatim>\<open>#\<close> followed by a word character, anywhere.\<close>

fun matches_hashtag :: "string \<Rightarrow> bool" where
  "matches_hashtag (a # b # cs) = ((a = CHR ''#'' \<and> is_word b) \<or> matches_hashtag (b # cs))"
| "matches_hashtag _ = False"

text \<open>\<^verbatim>\<open>hashtag ~ '^#\w+'\<close>: the same, at the start of the token only.\<close>

fun starts_with_hashtag :: "string \<Rightarrow> bool" where
  "starts_with_hashtag (a # b # cs) = (a = CHR ''#'' \<and> is_word b)"
| "starts_with_hashtag _ = False"

text \<open>
  The common table expression \<^verbatim>\<open>hashtags\<close>: the pieces of every caption that passes the
  \<^verbatim>\<open>WHERE\<close>, one row each. A \<^verbatim>\<open>NULL\<close> caption does not pass.
\<close>

definition hashtags_cte :: "db \<Rightarrow> string list" where
  "hashtags_cte d =
     concat (map (\<lambda>p. case post_caption p of
                         None \<Rightarrow> []
                       | Some caption \<Rightarrow>
                           if matches_hashtag caption then regexp_split_to_array caption else [])
                 (posts d))"

text \<open>
  \<^verbatim>\<open>GROUP BY hashtag\<close> with \<^verbatim>\<open>COUNT(*)\<close>: one row per distinct token, with the number of
  its rows.
\<close>

definition group_count :: "string list \<Rightarrow> (string \<times> nat) list" where
  "group_count rows = map (\<lambda>t. (t, count_list rows t)) (remdups rows)"

definition getTrendingHashtags :: "int \<Rightarrow> db \<Rightarrow> error + (string \<times> nat) list" where
  "getTrendingHashtags lim d =
     (let kept = filter starts_with_hashtag (hashtags_cte d);
          ordered = orderBy_desc (\<lambda>row. int (snd row)) (group_count kept)
      in if lim < 0 then Inl StoreError else Inr (take (nat lim) ordered))"



section \<open>Request handler layer\<close>

subsection \<open>Values of the handlers\<close>

text \<open>
  \<^verbatim>\<open>parseInt(string)\<close> with no radix: white space is skipped, a sign is read, a
  \<^verbatim>\<open>0x\<close> prefix selects radix 16, and the longest run of digits is the number;
  \<open>None\<close> is \<^verbatim>\<open>NaN\<close>. An absent query parameter is \<^verbatim>\<open>undefined\<close>, which
  \<^verbatim>\<open>parseInt\<close> first turns into the string \<^verbatim>\<open>"undefined"\<close>. Strings are ASCII here, and
  the rounding of integers beyond \<open>2^53\<close> to a double is not modelled.
\<close>

definition isStrWhiteSpace :: "char \<Rightarrow> bool" where
  "isStrWhiteSpace c \<longleftrightarrow> (let n = (of_char c :: nat) in n = 32 \<or> (9 \<le> n \<and> n \<le> 13))"

definition digit_value :: "char \<Rightarrow> nat option" where
  "digit_value c =
     (let n = (of_char c :: nat)
      in if 48 \<le> n \<and> n \<le> 57 then Some (n - 48)
         else if 97 \<le> n \<and> n \<le> 122 then Some (n - 87)
         else if 65 \<le> n \<and> n \<le> 90 then Some (n - 55)
         else None)"

definition is_digit :: "nat \<Rightarrow> char \<Rightarrow> bool" where
  "is_digit R c = (case digit_value c of None \<Rightarrow> False | Some v \<Rightarrow> v < R)"

definition digits_value :: "nat \<Rightarrow> string \<Rightarrow> nat" where
  "digits_value R Z =
     foldl (\<lambda>acc c. acc * R + (case digit_value c of None \<Rightarrow> 0 | Some v \<Rightarrow> v)) 0 Z"

definition parseInt :: "string option \<Rightarrow> int option" where
  "parseInt string =
     (let inputString = (case string of None \<Rightarrow> ''undefined'' | Some s \<Rightarrow> s);
          S = dropWhile isStrWhiteSpace inputString;
          sign = (if take 1 S = ''-'' then - 1 else 1 :: int);
          S1 = (if take 1 S = ''+'' \<or> take 1 S = ''-'' then drop 1 S else S);
          hex = (take 2 S1 = ''0x'' \<or> take 2 S1 = ''0X'');
          R = (if hex then 16 else 10);
          S2 = (if hex then drop 2 S1 else S1);
          Z = takeWhile (is_digit R) S2
      in if Z = [] then None else Some (sign * int (digits_value R Z)))"

text \<open>\<^verbatim>\<open>parseInt(x) || dflt\<close>: \<^verbatim>\<open>NaN\<close> and \<open>0\<close> are falsy.\<close>

definition or_default :: "int option \<Rightarrow> int \<Rightarrow> int" where
  "or_default v dflt = (case v of None \<Rightarrow> dflt | Some n \<Rightarrow> if n = 0 then dflt else n)"

text \<open>
  What a handler sees of the store: its statements run against the tables, or every one of
  them raises (\<open>Unavailable\<close>).
\<close>

datatype store = Unavailable | Available db

definition await :: "store \<Rightarrow> (db \<Rightarrow> 'a) \<Rightarrow> error + 'a" where
  "await s stmt = (case s of Unavailable \<Rightarrow> Inl StoreError | Available d \<Rightarrow> Inr (stmt d))"

text \<open>The JSON bodies, and a response: status code and body.\<close>

record post_with_data =
  pwd_post :: post
  pwd_user :: "user option"
  pwd_likeCount :: nat
  pwd_commentCount :: nat
  pwd_comments :: "comment list"

record story_with_user =
  swu_story :: story
  swu_user :: "user option"

datatype json =
    Message string
  | PostsWithData "post_with_data list"
  | PostJson post
  | UsersJson "user list"
  | VerifiedJson string "user option"
  | HashtagsJson "(string \<times> nat) list"
  | StoriesWithUsers "story_with_user list"

datatype response = Response nat json

subsection \<open>GET /api/posts\<close>

definition post_data :: "db \<Rightarrow> post \<Rightarrow> post_with_data" where
  "post_data d p =
     (let user = getUser (post_userId p) d;
          likeCount = getLikeCount (post_id p) d;
          postComments = getCommentsByPostId (post_id p) d
      in \<lparr>pwd_post = p, pwd_user = user, pwd_likeCount = likeCount,
          pwd_commentCount = length postComments, pwd_comments = take 3 postComments\<rparr>)"

definition get_posts :: "store \<Rightarrow> string option \<Rightarrow> string option \<Rightarrow> response" where
  "get_posts s query_limit query_offset =
     (let limit = or_default (parseInt query_limit) 20;
          offset = or_default (parseInt query_offset) 0
      in case s of
           Unavailable \<Rightarrow> Response 500 (Message ''Failed to fetch posts'')
         | Available d \<Rightarrow>
             (case getPosts limit offset d of
                Inl _ \<Rightarrow> Response 500 (Message ''Failed to fetch posts'')
              | Inr page \<Rightarrow> Response 200 (PostsWithData (map (post_data d) page))))"

subsection \<open>POST /api/posts\<close>

text \<open>
  The request as the handler receives it, after \<^verbatim>\<open>isAuthenticated\<close> and
  \<^verbatim>\<open>upload.single('image')\<close> have let it pass: the caller's \<^verbatim>\<open>claims.sub\<close>, the two
  body fields, and the stored file's name when a file came with the request.
\<close>

record post_request =
  req_sub :: string
  req_caption :: "string option"
  req_location :: "string option"
  req_file :: "string option"

record raw_post =
  raw_userId :: string
  raw_caption :: "string option"
  raw_location :: "string option"
  raw_imageUrl :: string

text \<open>
  Modelled from the spec: \<^verbatim>\<open>insertPostSchema\<close> is declared in \<^verbatim>\<open>@shared/schema\<close>, which
  is missing. The specification says that the body is validated against a schema (caption,
  location, derived image reference) and that validation fails when required fields are
  missing. Which body fields are required is not said: the two flags say it. The handler
  below takes the schema's \<^verbatim>\<open>parse\<close> as a parameter.
\<close>

definition insertPostSchema_parse :: "bool \<Rightarrow> bool \<Rightarrow> raw_post \<Rightarrow> error + insert_post" where
  "insertPostSchema_parse caption_required location_required raw =
     (if (caption_required \<and> raw_caption raw = None) \<or>
         (location_required \<and> raw_location raw = None)
      then Inl ZodError
      else Inr \<lparr>new_post_userId = raw_userId raw, new_post_caption = raw_caption raw,
                new_post_imageUrl = raw_imageUrl raw, new_post_location = raw_location raw\<rparr>)"

definition post_posts ::
  "(raw_post \<Rightarrow> error + insert_post) \<Rightarrow> timestamp \<Rightarrow> store \<Rightarrow> post_request \<Rightarrow> response \<times> store"
where
  "post_posts parse now s req =
     (let userId = req_sub req; caption = req_caption req; location = req_location req
      in case req_file req of
           None \<Rightarrow> (Response 400 (Message ''Image is required''), s)
         | Some filename \<Rightarrow>
             (let imageUrl = ''/uploads/'' @ filename
              in case parse \<lparr>raw_userId = userId, raw_caption = caption,
                              raw_location = location, raw_imageUrl = imageUrl\<rparr> of
                   Inl _ \<Rightarrow> (Response 500 (Message ''Failed to create post''), s)
                 | Inr postData \<Rightarrow>
                     (case s of
                        Unavailable \<Rightarrow> (Response 500 (Message ''Failed to create post''), s)
                      | Available d \<Rightarrow>
                          (let (newPost, d') = createPost postData now d
                           in (Response 200 (PostJson newPost), Available d')))))"

subsection \<open>Admin routes\<close>

text \<open>
  \<^verbatim>\<open>isAdmin\<close> runs after \<^verbatim>\<open>isAuthenticated\<close>, so \<^verbatim>\<open>req.user.claims.sub\<close> is there:
  \<open>sub\<close>. It either answers itself or calls \<^verbatim>\<open>next()\<close>.
\<close>

datatype middleware_result = Answered response | Next

definition isAdmin :: "store \<Rightarrow> string \<Rightarrow> middleware_result" where
  "isAdmin s sub =
     (case await s (getUser sub) of
        Inl _ \<Rightarrow> Answered (Response 500 (Message ''Failed to check admin status''))
      | Inr currentUser \<Rightarrow>
          if \<not> (case currentUser of None \<Rightarrow> False | Some u \<Rightarrow> user_isAdmin u = Some True)
          then Answered (Response 403 (Message ''Admin access required''))
          else Next)"

text \<open>A route behind \<^verbatim>\<open>isAdmin\<close>: the handler runs only when the check calls \<^verbatim>\<open>next()\<close>.\<close>

definition admin_route :: "(store \<Rightarrow> 'r \<Rightarrow> response \<times> store) \<Rightarrow> store \<Rightarrow> string \<Rightarrow> 'r \<Rightarrow> response \<times> store" where
  "admin_route handler s sub req =
     (case isAdmin s sub of Answered r \<Rightarrow> (r, s) | Next \<Rightarrow> handler s req)"

definition admin_users_handler :: "store \<Rightarrow> string option \<times> string option \<Rightarrow> response \<times> store" where
  "admin_users_handler s query =
     (let limit = or_default (parseInt (fst query)) 50;
          offset = or_default (parseInt (snd query)) 0
      in case s of
           Unavailable \<Rightarrow> (Response 500 (Message ''Failed to fetch users''), s)
         | Available d \<Rightarrow>
             (case getAllUsers limit offset d of
                Inl _ \<Rightarrow> (Response 500 (Message ''Failed to fetch users''), s)
              | Inr rows \<Rightarrow> (Response 200 (UsersJson rows), s)))"

definition admin_verify_user_handler :: "timestamp \<Rightarrow> store \<Rightarrow> string \<Rightarrow> response \<times> store" where
  "admin_verify_user_handler now s userId =
     (case s of
        Unavailable \<Rightarrow> (Response 500 (Message ''Failed to verify user''), s)
      | Available d \<Rightarrow>
          (let (updatedUser, d') = verifyUser userId now d
           in (Response 200 (VerifiedJson ''User verified successfully'' updatedUser),
               Available d')))"

definition get_admin_users :: "store \<Rightarrow> string \<Rightarrow> string option \<times> string option \<Rightarrow> response \<times> store" where
  "get_admin_users s sub query = admin_route admin_users_handler s sub query"

definition post_admin_verify_user :: "timestamp \<Rightarrow> store \<Rightarrow> string \<Rightarrow> string \<Rightarrow> response \<times> store" where
  "post_admin_verify_user now s sub userId = admin_route (admin_verify_user_handler now) s sub userId"

subsection \<open>GET /api/hashtags/trending and GET /api/stories\<close>

definition get_hashtags_trending :: "store \<Rightarrow> string option \<Rightarrow> response" where
  "get_hashtags_trending s query_limit =
     (let limit = or_default (parseInt query_limit) 10
      in case s of
           Unavailable \<Rightarrow> Response 500 (Message ''Failed to fetch trending hashtags'')
         | Available d \<Rightarrow>
             (case getTrendingHashtags limit d of
                Inl _ \<Rightarrow> Response 500 (Message ''Failed to fetch trending hashtags'')
              | Inr hashtags \<Rightarrow> Response 200 (HashtagsJson hashtags)))"

definition get_stories :: "timestamp \<Rightarrow> store \<Rightarrow> response" where
  "get_stories now s =
     (case s of
        Unavailable \<Rightarrow> Response 500 (Message ''Failed to fetch stories'')
      | Available d \<Rightarrow>
          Response 200
            (StoriesWithUsers
               (map (\<lambda>story. \<lparr>swu_story = story, swu_user = getUser (story_userId story) d\<rparr>)
                    (getActiveStories now d))))"

subsection \<open>Reading a response\<close>

definition status_of :: "response \<Rightarrow> nat" where
  "status_of r = (case r of Response code _ \<Rightarrow> code)"

definition response_posts :: "response \<Rightarrow> post_with_data list" where
  "response_posts r = (case r of Response _ (PostsWithData rows) \<Rightarrow> rows | _ \<Rightarrow> [])"

definition response_stories :: "response \<Rightarrow> story list" where
  "response_stories r =
     (case r of Response _ (StoriesWithUsers rows) \<Rightarrow> map swu_story rows | _ \<Rightarrow> [])"

subsection \<open>Story identifiers\<close>

text \<open>Stories are numbered by the serial counter: no identifier is above it, none twice.\<close>

definition story_ids_ok :: "db \<Rightarrow> bool" where
  "story_ids_ok d \<longleftrightarrow>
     (\<forall>r \<in> set (stories d). story_id r \<le> story_seq d) \<and> distinct (map story_id (stories d))"

section \<open>Example stores\<close>

definition alice_post :: post where
  "alice_post = \<lparr>post_id = 1, post_userId = ''alice'', post_caption = Some ''hello #world'',
     post_imageUrl = ''/uploads/f1'', post_location = None, post_createdAt = 1000\<rparr>"

definition liked_db :: db where
  "liked_db = empty_db\<lparr>posts := [alice_post],
     likes := [\<lparr>like_userId = ''bob'', like_postId = 1\<rparr>,
               \<lparr>like_userId = ''carol'', like_postId = 1\<rparr>],
     comments := [\<lparr>comment_id = 1, comment_postId = 1, comment_userId = ''bob'',
                   comment_content = ''nice'', comment_createdAt = 2000\<rparr>],
     post_seq := 1, comment_seq := 1\<rparr>"

definition story_a :: insert_story where
  "story_a = \<lparr>new_story_userId = ''alice'', new_story_mediaUrl = ''/uploads/s1'',
     new_story_expiresAt = Some 5\<rparr>"

definition story_row :: "int \<Rightarrow> timestamp \<Rightarrow> timestamp \<Rightarrow> story" where
  "story_row i created expires = \<lparr>story_id = i, story_userId = ''alice'',
     story_mediaUrl = ''/uploads/s1'', story_createdAt = created, story_expiresAt = expires\<rparr>"

definition stories_db :: db where
  "stories_db = empty_db\<lparr>stories := [story_row 1 100 900, story_row 2 200 1100,
     story_row 3 300 1200], story_seq := 3\<rparr>"

definition user_row :: "string \<Rightarrow> bool option \<Rightarrow> user" where
  "user_row name admin = \<lparr>user_id = name, user_username = Some name, user_isAdmin = admin,
     user_isVerified = Some False, user_isBanned = Some False, user_bannedReason = None,
     user_createdAt = 10, user_updatedAt = 10\<rparr>"

definition users_db :: db where
  "users_db = empty_db\<lparr>users := [user_row ''root'' (Some True), user_row ''bob'' (Some False),
     user_row ''carol'' None]\<rparr>"

definition upload_request :: "string option \<Rightarrow> string option \<Rightarrow> post_request" where
  "upload_request caption file =
     \<lparr>req_sub = ''alice'', req_caption = caption, req_location = None, req_file = file\<rparr>"

definition comment_row :: "int \<Rightarrow> int \<Rightarrow> timestamp \<Rightarrow> comment" where
  "comment_row i postId created = \<lparr>comment_id = i, comment_postId = postId,
     comment_userId = ''bob'', comment_content = ''nice'', comment_createdAt = created\<rparr>"

definition busy_db :: db where
  "busy_db = empty_db\<lparr>users := [user_row ''alice'' (Some False)],
     posts := [alice_post],
     likes := [\<lparr>like_userId = ''bob'', like_postId = 1\<rparr>,
               \<lparr>like_userId = ''carol'', like_postId = 1\<rparr>],
     comments := [comment_row 1 1 10, comment_row 2 1 40, comment_row 3 2 50,
                  comment_row 4 1 20, comment_row 5 1 30],
     post_seq := 1, comment_seq := 5\<rparr>"



section \<open>Verified properties\<close>

subsection \<open>Deleting a post\<close>

lemma likes_delete_related:
  "likes (delete_related i d) = filter (\<lambda>l. \<not> like_postId l = i) (likes d)"
  by (simp add: delete_related_def delete_comments_of_def delete_likes_of_def)

lemma comments_delete_related:
  "comments (delete_related i d) = filter (\<lambda>c. \<not> comment_postId c = i) (comments d)"
  by (simp add: delete_related_def delete_comments_of_def delete_likes_of_def)

lemma posts_delete_related: "posts (delete_related i d) = posts d"
  by (simp add: delete_related_def delete_comments_of_def delete_likes_of_def)

text \<open>
  Claim C3. After \<^verbatim>\<open>deletePost(id, userId)\<close> (for the owner, and in fact for any
  \<open>userId\<close>) and after \<^verbatim>\<open>deletePostAsAdmin(id)\<close>, no like row and no comment row
  carries the post's id: the like count of the post is 0 and its list of comments is empty.
  The owner's post, and for the admin any post with that id, is gone as well. The dependent
  rows go first: in the store between the second and the third statement
  (\<open>delete_related\<close>) the posts table is still whole and the dependents are already gone.
\<close>

theorem deletePost_no_orphans:
  "i \<notin> like_postId ` set (likes (deletePost i userId d)) \<and>
   i \<notin> comment_postId ` set (comments (deletePost i userId d)) \<and>
   getLikeCount i (deletePost i userId d) = 0 \<and>
   getCommentsByPostId i (deletePost i userId d) = [] \<and>
   filter (\<lambda>p. post_id p = i \<and> post_userId p = userId) (posts (deletePost i userId d)) = [] \<and>
   i \<notin> like_postId ` set (likes (deletePostAsAdmin i d)) \<and>
   i \<notin> comment_postId ` set (comments (deletePostAsAdmin i d)) \<and>
   getLikeCount i (deletePostAsAdmin i d) = 0 \<and>
   getCommentsByPostId i (deletePostAsAdmin i d) = [] \<and>
   getPost i (deletePostAsAdmin i d) = None \<and>
   posts (delete_related i d) = posts d \<and>
   i \<notin> like_postId ` set (likes (delete_related i d)) \<and>
   i \<notin> comment_postId ` set (comments (delete_related i d))"
  by (auto simp add: deletePost_def deletePostAsAdmin_def Let_def likes_delete_related
      comments_delete_related posts_delete_related getLikeCount_def getCommentsByPostId_def
      orderBy_desc_def getPost_def first_row_def filter_empty_conv split: list.splits)

text \<open>
  Claim C10. When \<^verbatim>\<open>deletePost(id, userId)\<close> is called by somebody who does not own
  the post, the post row stays as it is (it is still what \<^verbatim>\<open>getPost(id)\<close> returns), and
  yet every like row and every comment row of the post is deleted: the owner check is part
  of the third statement only.
\<close>

theorem deletePost_by_other_user:
  assumes "getPost i d = Some p" and "post_userId p \<noteq> userId"
  shows "getPost i (deletePost i userId d) = Some p \<and>
         p \<in> set (posts (deletePost i userId d)) \<and>
         likes (deletePost i userId d) = filter (\<lambda>l. like_postId l \<noteq> i) (likes d) \<and>
         comments (deletePost i userId d) = filter (\<lambda>c. comment_postId c \<noteq> i) (comments d) \<and>
         getLikeCount i (deletePost i userId d) = 0 \<and>
         getCommentsByPostId i (deletePost i userId d) = []"
proof -
  from assms(1) obtain rest where f: "filter (\<lambda>q. post_id q = i) (posts d) = p # rest"
    by (auto simp add: getPost_def first_row_def split: list.splits)
  have "p \<in> set (filter (\<lambda>q. post_id q = i) (posts d))"
    unfolding f by simp
  then have pin: "p \<in> set (posts d)" and pid: "post_id p = i"
    by simp_all
  have "filter (\<lambda>q. post_id q = i)
          (filter (\<lambda>q. \<not> (post_id q = i \<and> post_userId q = userId)) (posts d))
        = filter (\<lambda>q. \<not> (post_id q = i \<and> post_userId q = userId))
            (filter (\<lambda>q. post_id q = i) (posts d))"
    by (simp add: conj_commute)
  also have "\<dots> = p # filter (\<lambda>q. \<not> (post_id q = i \<and> post_userId q = userId)) rest"
    using f assms(2) by simp
  finally have "getPost i (deletePost i userId d) = Some p"
    by (simp add: getPost_def deletePost_def Let_def posts_delete_related first_row_def)
  moreover have "p \<in> set (posts (deletePost i userId d))"
    using pin assms(2) by (simp add: deletePost_def Let_def posts_delete_related)
  ultimately show ?thesis
    by (simp add: deletePost_def Let_def likes_delete_related comments_delete_related
        getLikeCount_def getCommentsByPostId_def orderBy_desc_def)
qed

theorem deletePost_by_other_user_witness:
  "getPost 1 liked_db = Some alice_post \<and> post_userId alice_post \<noteq> ''bob'' \<and>
   getLikeCount 1 liked_db = 2 \<and> length (getCommentsByPostId 1 liked_db) = 1 \<and>
   getPost 1 (deletePost 1 ''bob'' liked_db) = Some alice_post \<and>
   likes (deletePost 1 ''bob'' liked_db) = [] \<and>
   comments (deletePost 1 ''bob'' liked_db) = []"
proof -
  have a: "getPost 1 liked_db = Some alice_post"
    by (simp add: getPost_def liked_db_def empty_db_def alice_post_def first_row_def)
  have b: "post_userId alice_post \<noteq> ''bob''"
    by (simp add: alice_post_def)
  show ?thesis
    using a b deletePost_by_other_user [OF a b]
    by (simp add: liked_db_def empty_db_def getLikeCount_def getCommentsByPostId_def
        orderBy_desc_def)
qed

subsection \<open>Toggling likes and follows\<close>

lemma like_matches_eq:
  "like_matches u p l \<longleftrightarrow> l = \<lparr>like_userId = u, like_postId = p\<rparr>"
  by (cases l) (auto simp add: like_matches_def)

lemma follow_matches_eq:
  "follow_matches a b f \<longleftrightarrow> f = \<lparr>follow_followerId = a, follow_followingId = b\<rparr>"
  by (cases f) (auto simp add: follow_matches_def)

lemma filter_absent: "x \<notin> set xs \<Longrightarrow> filter (\<lambda>y. \<not> y = x) xs = xs"
  by (induction xs) auto

lemma mset_remove_then_append:
  "distinct xs \<Longrightarrow> x \<in> set xs \<Longrightarrow> mset (filter (\<lambda>y. \<not> y = x) xs @ [x]) = mset xs"
  by (induction xs) (auto simp add: filter_absent simp del: mset_filter)

lemma likes_toggleLike:
  "likes (snd (toggleLike u p d)) =
     (if \<lparr>like_userId = u, like_postId = p\<rparr> \<in> set (likes d)
      then filter (\<lambda>l. \<not> l = \<lparr>like_userId = u, like_postId = p\<rparr>) (likes d)
      else likes d @ [\<lparr>like_userId = u, like_postId = p\<rparr>])"
  by (auto simp add: toggleLike_def Let_def like_matches_eq filter_empty_conv)

lemma fst_toggleLike:
  "fst (toggleLike u p d) \<longleftrightarrow> \<lparr>like_userId = u, like_postId = p\<rparr> \<notin> set (likes d)"
  by (auto simp add: toggleLike_def Let_def like_matches_eq filter_empty_conv)

lemma isPostLiked_iff:
  "isPostLiked u p d \<longleftrightarrow> \<lparr>like_userId = u, like_postId = p\<rparr> \<in> set (likes d)"
proof -
  have "filter (like_matches u p) (likes d) = [] \<longleftrightarrow>
        \<lparr>like_userId = u, like_postId = p\<rparr> \<notin> set (likes d)"
    by (auto simp add: like_matches_eq filter_empty_conv)
  then show ?thesis
    by (cases "filter (like_matches u p) (likes d)")
       (simp_all add: isPostLiked_def first_row_def)
qed

lemma getLikeCount_mset:
  "mset (likes d') = mset (likes d) \<Longrightarrow> getLikeCount q d' = getLikeCount q d"
  unfolding getLikeCount_def by (metis mset_filter size_mset)

lemma toggleLike_twice:
  assumes "distinct (likes d)"
  shows "mset (likes (snd (toggleLike u p (snd (toggleLike u p d))))) = mset (likes d)"
  using assms
  by (simp add: likes_toggleLike mset_remove_then_append filter_absent del: mset_filter mset_append)


lemma follows_toggleFollow:
  "follows (snd (toggleFollow a b d)) =
     (if \<lparr>follow_followerId = a, follow_followingId = b\<rparr> \<in> set (follows d)
      then filter (\<lambda>f. \<not> f = \<lparr>follow_followerId = a, follow_followingId = b\<rparr>) (follows d)
      else follows d @ [\<lparr>follow_followerId = a, follow_followingId = b\<rparr>])"
  by (auto simp add: toggleFollow_def Let_def follow_matches_eq filter_empty_conv)

lemma fst_toggleFollow:
  "fst (toggleFollow a b d) \<longleftrightarrow>
     \<lparr>follow_followerId = a, follow_followingId = b\<rparr> \<notin> set (follows d)"
  by (auto simp add: toggleFollow_def Let_def follow_matches_eq filter_empty_conv)

lemma isFollowing_iff:
  "isFollowing a b d \<longleftrightarrow> \<lparr>follow_followerId = a, follow_followingId = b\<rparr> \<in> set (follows d)"
proof -
  have "filter (follow_matches a b) (follows d) = [] \<longleftrightarrow>
        \<lparr>follow_followerId = a, follow_followingId = b\<rparr> \<notin> set (follows d)"
    by (auto simp add: follow_matches_eq filter_empty_conv)
  then show ?thesis
    by (cases "filter (follow_matches a b) (follows d)")
       (simp_all add: isFollowing_def first_row_def)
qed

lemma follow_counts_mset:
  assumes "mset (follows d') = mset (follows d)"
  shows "getFollowerCount w d' = getFollowerCount w d"
    and "getFollowingCount w d' = getFollowingCount w d"
  using assms unfolding getFollowerCount_def getFollowingCount_def
  by (metis mset_filter size_mset)+

lemma toggleFollow_twice:
  assumes "distinct (follows d)"
  shows "mset (follows (snd (toggleFollow a b (snd (toggleFollow a b d))))) = mset (follows d)"
  using assms
  by (simp add: follows_toggleFollow mset_remove_then_append filter_absent
      del: mset_filter mset_append)

lemma likes_update_users [simp]: "likes (snd (update_users i p now d)) = likes d"
  and follows_update_users [simp]: "follows (snd (update_users i p now d)) = follows d"
  and stories_update_users [simp]: "stories (snd (update_users i p now d)) = stories d"
  by (simp_all add: update_users_def Let_def)

lemma exec_keeps_sets:
  assumes "distinct (likes d) \<and> distinct (follows d)"
  shows "distinct (likes (exec x d)) \<and> distinct (follows (exec x d))"
proof (cases x)
  case (ToggleLike u p)
  then show ?thesis using assms
    by (simp add: likes_toggleLike) (simp add: toggleLike_def Let_def)
next
  case (ToggleFollow a b)
  then show ?thesis using assms
    by (simp add: follows_toggleFollow) (simp add: toggleFollow_def Let_def)
qed (use assms in \<open>simp_all add: upsertUser_def updateUserProfile_def createPost_def Let_def
      deletePost_def deletePostAsAdmin_def likes_delete_related createComment_def
      deleteComment_def createStory_def deleteExpiredStories_def banUser_def unbanUser_def
      verifyUser_def unverifyUser_def makeAdmin_def removeAdmin_def delete_related_def
      delete_comments_of_def delete_likes_of_def\<close>)

lemma run_keeps_sets:
  "distinct (likes d) \<and> distinct (follows d) \<Longrightarrow>
   distinct (likes (run xs d)) \<and> distinct (follows (run xs d))"
proof (induction xs arbitrary: d)
  case Nil
  then show ?case by simp
next
  case (Cons x xs)
  from Cons.prems have "distinct (likes (exec x d)) \<and> distinct (follows (exec x d))"
    by (rule exec_keeps_sets)
  then show ?case using Cons.IH by simp
qed

lemma reachable_sets:
  "distinct (likes (run xs empty_db))" "distinct (follows (run xs empty_db))"
  using run_keeps_sets [of empty_db xs] by (simp_all add: empty_db_def)

text \<open>
  Claim C2. In every store that the storage operations build from the empty one, and for
  every (user, post) pair and every (follower, following) pair: the first toggle returns
  \<open>True\<close> and inserts the row when the pair was absent, returns \<open>False\<close> and deletes
  it when the pair was present (the like count of the post then goes up or down by one); the
  second toggle does the opposite; and after both the membership of the pair, the like count
  of every post, the follower and following count of every user, the rows of the relation
  (as a multiset) and all other tables are what they were.

  The stores built by the operations hold each pair at most once (\<open>reachable_sets\<close>),
  and the proof rests on that: the delete of a toggle removes every row of the pair, the
  insert adds one.
\<close>

theorem toggle_twice_restores:
  "(let d = run ops empty_db;
        d1 = snd (toggleLike u p d);
        d2 = snd (toggleLike u p d1)
    in fst (toggleLike u p d) = (\<not> isPostLiked u p d) \<and>
       isPostLiked u p d1 = (\<not> isPostLiked u p d) \<and>
       getLikeCount p d1 = (if isPostLiked u p d then getLikeCount p d - 1 else getLikeCount p d + 1) \<and>
       fst (toggleLike u p d1) = isPostLiked u p d \<and>
       isPostLiked u p d2 = isPostLiked u p d \<and>
       getLikeCount q d2 = getLikeCount q d \<and>
       mset (likes d2) = mset (likes d) \<and>
       d2 = d\<lparr>likes := likes d2\<rparr>) \<and>
   (let d = run ops empty_db;
        d1 = snd (toggleFollow a b d);
        d2 = snd (toggleFollow a b d1)
    in fst (toggleFollow a b d) = (\<not> isFollowing a b d) \<and>
       isFollowing a b d1 = (\<not> isFollowing a b d) \<and>
       fst (toggleFollow a b d1) = isFollowing a b d \<and>
       isFollowing a b d2 = isFollowing a b d \<and>
       getFollowerCount w d2 = getFollowerCount w d \<and>
       getFollowingCount w d2 = getFollowingCount w d \<and>
       mset (follows d2) = mset (follows d) \<and>
       d2 = d\<lparr>follows := follows d2\<rparr>)"
proof -
  define d where "d = run ops empty_db"
  have dl: "distinct (likes d)" and df: "distinct (follows d)"
    unfolding d_def by (rule reachable_sets)+
  define x where "x = \<lparr>like_userId = u, like_postId = p\<rparr>"
  define d1 where "d1 = snd (toggleLike u p d)"
  define d2 where "d2 = snd (toggleLike u p d1)"
  have m: "mset (likes d2) = mset (likes d)"
    unfolding d2_def d1_def using dl by (rule toggleLike_twice)
  have l1: "fst (toggleLike u p d) = (\<not> isPostLiked u p d)"
    by (simp add: fst_toggleLike isPostLiked_iff)
  have l2: "isPostLiked u p d1 = (\<not> isPostLiked u p d)"
    by (simp add: d1_def isPostLiked_iff likes_toggleLike)
  have l3: "fst (toggleLike u p d1) = isPostLiked u p d"
    using l2 by (simp add: fst_toggleLike isPostLiked_iff)
  have l4: "isPostLiked u p d2 = isPostLiked u p d"
    using m by (simp add: isPostLiked_iff) (metis set_mset_mset)
  have l5: "getLikeCount q d2 = getLikeCount q d"
    using m by (rule getLikeCount_mset)
  have "length (filter (\<lambda>l. like_postId l = p) (filter (\<lambda>l. \<not> l = x) (likes d))) + 1 =
        length (filter (\<lambda>l. like_postId l = p) (likes d))" if "x \<in> set (likes d)"
  proof -
    have "mset (filter (\<lambda>l. \<not> l = x) (likes d) @ [x]) = mset (likes d)"
      using dl that by (rule mset_remove_then_append)
    then have "length (filter (\<lambda>l. like_postId l = p) (filter (\<lambda>l. \<not> l = x) (likes d) @ [x])) =
               length (filter (\<lambda>l. like_postId l = p) (likes d))"
      by (metis mset_filter size_mset)
    then show ?thesis by (simp add: x_def)
  qed
  then have l6: "getLikeCount p d1 =
      (if isPostLiked u p d then getLikeCount p d - 1 else getLikeCount p d + 1)"
    by (auto simp add: d1_def getLikeCount_def likes_toggleLike isPostLiked_iff x_def)
  have l7: "d2 = d\<lparr>likes := likes d2\<rparr>"
    unfolding d2_def d1_def by (simp add: toggleLike_def Let_def)
  define e1 where "e1 = snd (toggleFollow a b d)"
  define e2 where "e2 = snd (toggleFollow a b e1)"
  have n: "mset (follows e2) = mset (follows d)"
    unfolding e2_def e1_def using df by (rule toggleFollow_twice)
  have f1: "fst (toggleFollow a b d) = (\<not> isFollowing a b d)"
    by (simp add: fst_toggleFollow isFollowing_iff)
  have f2: "isFollowing a b e1 = (\<not> isFollowing a b d)"
    by (simp add: e1_def isFollowing_iff follows_toggleFollow)
  have f3: "fst (toggleFollow a b e1) = isFollowing a b d"
    using f2 by (simp add: fst_toggleFollow isFollowing_iff)
  have f4: "isFollowing a b e2 = isFollowing a b d"
    using n by (simp add: isFollowing_iff) (metis set_mset_mset)
  have f5: "getFollowerCount w e2 = getFollowerCount w d"
    and f6: "getFollowingCount w e2 = getFollowingCount w d"
    using n by (rule follow_counts_mset)+
  have f7: "e2 = d\<lparr>follows := follows e2\<rparr>"
    unfolding e2_def e1_def by (simp add: toggleFollow_def Let_def)
  from l1 l2 l3 l4 l5 l6 l7 m f1 f2 f3 f4 f5 f6 f7 n show ?thesis
    unfolding Let_def d_def d1_def d2_def e1_def e2_def by blast
qed


theorem toggle_twice_restores_witness:
  "(let d = run [ToggleLike ''bob'' 1, ToggleFollow ''bob'' ''alice''] empty_db;
        d1 = snd (toggleLike ''bob'' 1 d);
        d2 = snd (toggleLike ''bob'' 1 d1)
    in isPostLiked ''bob'' 1 d \<and> getLikeCount 1 d = 1 \<and>
       fst (toggleLike ''bob'' 1 d) = False \<and>
       isPostLiked ''bob'' 1 d1 = False \<and> getLikeCount 1 d1 = 0 \<and>
       fst (toggleLike ''bob'' 1 d1) = True \<and>
       isPostLiked ''bob'' 1 d2 \<and> getLikeCount 1 d2 = 1) \<and>
   (let d = run [ToggleLike ''bob'' 1, ToggleFollow ''bob'' ''alice''] empty_db;
        d1 = snd (toggleFollow ''bob'' ''alice'' d);
        d2 = snd (toggleFollow ''bob'' ''alice'' d1)
    in isFollowing ''bob'' ''alice'' d \<and> getFollowerCount ''alice'' d = 1 \<and>
       fst (toggleFollow ''bob'' ''alice'' d) = False \<and>
       isFollowing ''bob'' ''alice'' d1 = False \<and>
       fst (toggleFollow ''bob'' ''alice'' d1) = True \<and>
       isFollowing ''bob'' ''alice'' d2 \<and> getFollowerCount ''alice'' d2 = 1)"
proof -
  define d where "d = run [ToggleLike ''bob'' 1, ToggleFollow ''bob'' ''alice''] empty_db"
  have rows: "likes d = [\<lparr>like_userId = ''bob'', like_postId = 1\<rparr>]"
    "follows d = [\<lparr>follow_followerId = ''bob'', follow_followingId = ''alice''\<rparr>]"
    by (simp_all add: d_def likes_toggleLike follows_toggleFollow empty_db_def
        toggleFollow_def toggleLike_def Let_def)
  have a: "isPostLiked ''bob'' 1 d" and b: "getLikeCount 1 d = 1"
    and c: "isFollowing ''bob'' ''alice'' d" and e: "getFollowerCount ''alice'' d = 1"
    by (simp_all add: isPostLiked_iff isFollowing_iff getLikeCount_def getFollowerCount_def rows)
  have t: "(let d1 = snd (toggleLike ''bob'' 1 d);
        d2 = snd (toggleLike ''bob'' 1 d1)
    in fst (toggleLike ''bob'' 1 d) = (\<not> isPostLiked ''bob'' 1 d) \<and>
       isPostLiked ''bob'' 1 d1 = (\<not> isPostLiked ''bob'' 1 d) \<and>
       getLikeCount 1 d1 = (if isPostLiked ''bob'' 1 d then getLikeCount 1 d - 1 else getLikeCount 1 d + 1) \<and>
       fst (toggleLike ''bob'' 1 d1) = isPostLiked ''bob'' 1 d \<and>
       isPostLiked ''bob'' 1 d2 = isPostLiked ''bob'' 1 d \<and>
       getLikeCount 1 d2 = getLikeCount 1 d \<and>
       mset (likes d2) = mset (likes d) \<and>
       d2 = d\<lparr>likes := likes d2\<rparr>) \<and>
   (let d1 = snd (toggleFollow ''bob'' ''alice'' d);
        d2 = snd (toggleFollow ''bob'' ''alice'' d1)
    in fst (toggleFollow ''bob'' ''alice'' d) = (\<not> isFollowing ''bob'' ''alice'' d) \<and>
       isFollowing ''bob'' ''alice'' d1 = (\<not> isFollowing ''bob'' ''alice'' d) \<and>
       fst (toggleFollow ''bob'' ''alice'' d1) = isFollowing ''bob'' ''alice'' d \<and>
       isFollowing ''bob'' ''alice'' d2 = isFollowing ''bob'' ''alice'' d \<and>
       getFollowerCount ''alice'' d2 = getFollowerCount ''alice'' d \<and>
       getFollowingCount ''alice'' d2 = getFollowingCount ''alice'' d \<and>
       mset (follows d2) = mset (follows d) \<and>
       d2 = d\<lparr>follows := follows d2\<rparr>)"
    using toggle_twice_restores [of "[ToggleLike ''bob'' 1, ToggleFollow ''bob'' ''alice'']"
        "''bob''" 1 1 "''bob''" "''alice''" "''alice''"]
    unfolding d_def Let_def .
  have "(let d1 = snd (toggleLike ''bob'' 1 d);
        d2 = snd (toggleLike ''bob'' 1 d1)
    in isPostLiked ''bob'' 1 d \<and> getLikeCount 1 d = 1 \<and>
       fst (toggleLike ''bob'' 1 d) = False \<and>
       isPostLiked ''bob'' 1 d1 = False \<and> getLikeCount 1 d1 = 0 \<and>
       fst (toggleLike ''bob'' 1 d1) = True \<and>
       isPostLiked ''bob'' 1 d2 \<and> getLikeCount 1 d2 = 1) \<and>
   (let d1 = snd (toggleFollow ''bob'' ''alice'' d);
        d2 = snd (toggleFollow ''bob'' ''alice'' d1)
    in isFollowing ''bob'' ''alice'' d \<and> getFollowerCount ''alice'' d = 1 \<and>
       fst (toggleFollow ''bob'' ''alice'' d) = False \<and>
       isFollowing ''bob'' ''alice'' d1 = False \<and>
       fst (toggleFollow ''bob'' ''alice'' d1) = True \<and>
       isFollowing ''bob'' ''alice'' d2 \<and> getFollowerCount ''alice'' d2 = 1)"
    using t a b c e unfolding Let_def by simp
  then show ?thesis unfolding d_def Let_def .
qed

text \<open>
  For comparison, a table that holds a pair twice, which no run of the operations produces:
  there the two toggles leave one row where there were two.
\<close>

lemma toggleLike_twice_on_duplicate_rows:
  "(let x = \<lparr>like_userId = ''bob'', like_postId = 1\<rparr>;
        d = empty_db\<lparr>likes := [x, x]\<rparr>;
        d2 = snd (toggleLike ''bob'' 1 (snd (toggleLike ''bob'' 1 d)))
    in getLikeCount 1 d = 2 \<and> getLikeCount 1 d2 = 1)"
  by (simp add: Let_def getLikeCount_def likes_toggleLike empty_db_def)

subsection \<open>Ordering and paging\<close>

lemma set_orderBy_desc [simp]: "set (orderBy_desc col rows) = set rows"
  by (simp add: orderBy_desc_def)

lemma mset_orderBy_desc [simp]: "mset (orderBy_desc col rows) = mset rows"
  by (simp add: orderBy_desc_def)

lemma length_orderBy_desc [simp]: "length (orderBy_desc col rows) = length rows"
  by (simp add: orderBy_desc_def)

lemma sorted_orderBy_desc: "sorted_wrt (\<lambda>a b. col b \<le> col a) (orderBy_desc col rows)"
proof -
  have "sorted (map (\<lambda>r. - col r) (sort_key (\<lambda>r. - col r) rows))"
    by (rule sorted_sort_key)
  then show ?thesis
    by (simp add: orderBy_desc_def sorted_wrt_map)
qed

lemma sorted_wrt_take_drop:
  "sorted_wrt R xs \<Longrightarrow> x \<in> set (take n xs) \<Longrightarrow> y \<in> set (drop n xs) \<Longrightarrow> R x y"
  by (metis append_take_drop_id sorted_wrt_append)

subsection \<open>Stories\<close>

lemma stories_exec:
  "set (stories (exec x d)) \<subseteq>
     set (stories d) \<union>
     (case x of CreateStory s now insertedAt \<Rightarrow> {fst (createStory s now insertedAt d)} | _ \<Rightarrow> {})"
  by (cases x)
     (auto simp add: upsertUser_def updateUserProfile_def createPost_def Let_def
      deletePost_def deletePostAsAdmin_def createComment_def toggleLike_def toggleFollow_def
      deleteComment_def createStory_def deleteExpiredStories_def banUser_def unbanUser_def
      verifyUser_def unverifyUser_def makeAdmin_def removeAdmin_def delete_related_def
      delete_comments_of_def delete_likes_of_def)

lemma story_seq_exec: "story_seq d \<le> story_seq (exec x d)"
  by (cases x)
     (auto simp add: upsertUser_def updateUserProfile_def createPost_def Let_def
      deletePost_def deletePostAsAdmin_def createComment_def toggleLike_def toggleFollow_def
      deleteComment_def createStory_def deleteExpiredStories_def banUser_def unbanUser_def
      verifyUser_def unverifyUser_def makeAdmin_def removeAdmin_def delete_related_def
      delete_comments_of_def delete_likes_of_def update_users_def)

lemma story_id_created: "story_id (fst (createStory s now insertedAt d)) = story_seq d + 1"
  by (simp add: createStory_def Let_def)

lemma stories_exec_cases:
  assumes "r \<in> set (stories (exec x d))"
  shows "r \<in> set (stories d) \<or>
         (\<exists>s now insertedAt. x = CreateStory s now insertedAt \<and>
            r = fst (createStory s now insertedAt d))"
  using assms stories_exec [of x d] by (cases x) auto

lemma story_ids_ok_exec:
  assumes "story_ids_ok d"
  shows "story_ids_ok (exec x d)"
proof (cases x)
  case (CreateStory s now insertedAt)
  then show ?thesis using assms
    by (auto simp add: story_ids_ok_def createStory_def Let_def)
next
  case (DeleteExpiredStories now)
  then show ?thesis using assms
    by (auto simp add: story_ids_ok_def deleteExpiredStories_def distinct_map_filter)
qed (use assms in \<open>auto simp add: story_ids_ok_def upsertUser_def updateUserProfile_def
      createPost_def Let_def deletePost_def deletePostAsAdmin_def createComment_def
      toggleLike_def toggleFollow_def deleteComment_def banUser_def unbanUser_def
      verifyUser_def unverifyUser_def makeAdmin_def removeAdmin_def delete_related_def
      delete_comments_of_def delete_likes_of_def update_users_def\<close>)

lemma story_ids_ok_run: "story_ids_ok d \<Longrightarrow> story_ids_ok (run xs d)"
  by (induction xs arbitrary: d) (simp_all add: story_ids_ok_exec)

lemma story_ids_ok_reachable: "story_ids_ok (run xs empty_db)"
  by (rule story_ids_ok_run) (simp add: story_ids_ok_def empty_db_def)

lemma stories_run_old_or_newer:
  "r \<in> set (stories (run xs d)) \<Longrightarrow> r \<in> set (stories d) \<or> story_seq d < story_id r"
proof (induction xs arbitrary: d)
  case Nil
  then show ?case by simp
next
  case (Cons x xs)
  then have "r \<in> set (stories (exec x d)) \<or> story_seq (exec x d) < story_id r"
    by simp
  then show ?case
  proof
    assume "r \<in> set (stories (exec x d))"
    then show ?thesis
      using stories_exec_cases [of r x d] by (auto simp add: story_id_created)
  next
    assume "story_seq (exec x d) < story_id r"
    then show ?thesis
      using story_seq_exec [of d x] by simp
  qed
qed

lemma stories_run_origin:
  "r \<in> set (stories (run xs d)) \<Longrightarrow>
   r \<in> set (stories d) \<or>
   (\<exists>s now insertedAt. CreateStory s now insertedAt \<in> set xs \<and>
      story_expiresAt r = now + 86400000)"
proof (induction xs arbitrary: d)
  case Nil
  then show ?case by simp
next
  case (Cons x xs)
  from Cons.IH [of "exec x d"] Cons.prems
  have "r \<in> set (stories (exec x d)) \<or>
        (\<exists>s now insertedAt. CreateStory s now insertedAt \<in> set xs \<and>
           story_expiresAt r = now + 86400000)"
    by simp
  then show ?case
  proof
    assume "r \<in> set (stories (exec x d))"
    then consider "r \<in> set (stories d)"
      | s now insertedAt where "x = CreateStory s now insertedAt"
          "r = fst (createStory s now insertedAt d)"
      using stories_exec_cases [of r x d] by blast
    then show ?thesis
    proof cases
      case 1
      then show ?thesis by simp
    next
      case 2
      then have "CreateStory s now insertedAt \<in> set (x # xs)"
        and "story_expiresAt r = now + 86400000"
        by (simp_all add: createStory_def Let_def)
      then show ?thesis by blast
    qed
  next
    assume "\<exists>s now insertedAt. CreateStory s now insertedAt \<in> set xs \<and>
              story_expiresAt r = now + 86400000"
    then show ?thesis by auto
  qed
qed

text \<open>
  Claim C9 says that a story expires exactly 24 hours after its creation time. The
  \<^verbatim>\<open>createdAt\<close> of the stored row is not a value that \<^verbatim>\<open>createStory\<close> computes: the store
  fills it in at the insert, while \<^verbatim>\<open>expiresAt\<close> comes from the application's
  \<^verbatim>\<open>Date.now()\<close>. When the two readings are 2 ms apart, the story that the operation stores
  expires 86399998 ms after its \<^verbatim>\<open>createdAt\<close>.
\<close>

theorem createStory_createdAt_counterexample:
  "fst (createStory story_a 1000 1002 empty_db) \<in>
     set (stories (run [CreateStory story_a 1000 1002] empty_db)) \<and>
   story_createdAt (fst (createStory story_a 1000 1002 empty_db)) = 1002 \<and>
   story_expiresAt (fst (createStory story_a 1000 1002 empty_db)) = 86401000 \<and>
   story_expiresAt (fst (createStory story_a 1000 1002 empty_db)) -
     story_createdAt (fst (createStory story_a 1000 1002 empty_db)) = 86399998"
  by (simp add: createStory_def Let_def empty_db_def story_a_def)

text \<open>
  Claim C9, amended. The story that \<^verbatim>\<open>createStory\<close> stores expires exactly 24 hours
  (\<open>86400000\<close> milliseconds) after the clock reading \<open>now\<close> that \<^verbatim>\<open>createStory\<close> takes
  when it is called, whatever the caller passed; that is 24 hours after the row's
  \<^verbatim>\<open>createdAt\<close> exactly when the store's reading at the insert, \<open>insertedAt\<close>, is the
  same instant. No writing operation touches a stored row: after any operation the rows of
  the stories table are rows that were there before, or the one just created. So in a store
  built by the operations, a row found later under the identifier of a story \<open>r\<close> is
  \<open>r\<close> itself, with the \<^verbatim>\<open>expiresAt\<close> it was created with, which is 24 hours after
  the clock reading of a \<^verbatim>\<open>createStory\<close> call of the run.
\<close>

theorem story_expiresAt_fixed:
  assumes "r \<in> set (stories (run ops empty_db))"
    and "r' \<in> set (stories (run later (run ops empty_db)))"
    and "story_id r' = story_id r"
  shows "story_expiresAt (fst (createStory s now insertedAt d)) = now + 86400000 \<and>
         story_createdAt (fst (createStory s now insertedAt d)) = insertedAt \<and>
         (story_expiresAt (fst (createStory s now insertedAt d)) =
            story_createdAt (fst (createStory s now insertedAt d)) + 86400000
          \<longleftrightarrow> insertedAt = now) \<and>
         stories (snd (createStory s now insertedAt d)) =
           stories d @ [fst (createStory s now insertedAt d)] \<and>
         set (stories (exec x d)) \<subseteq>
           set (stories d) \<union>
           (case x of CreateStory s' now' insertedAt' \<Rightarrow> {fst (createStory s' now' insertedAt' d)}
            | _ \<Rightarrow> {}) \<and>
         r' = r \<and> story_expiresAt r' = story_expiresAt r \<and>
         (\<exists>s0 now0 insertedAt0. CreateStory s0 now0 insertedAt0 \<in> set ops \<and>
            story_expiresAt r = now0 + 86400000)"
proof -
  let ?d = "run ops empty_db"
  have ok: "story_ids_ok ?d" by (rule story_ids_ok_reachable)
  from assms(2) have "r' \<in> set (stories ?d) \<or> story_seq ?d < story_id r'"
    by (rule stories_run_old_or_newer)
  moreover have "story_id r \<le> story_seq ?d"
    using ok assms(1) by (simp add: story_ids_ok_def)
  ultimately have "r' \<in> set (stories ?d)"
    using assms(3) by auto
  with assms(1,3) ok have same: "r' = r"
    by (auto simp add: story_ids_ok_def distinct_map dest: inj_onD)
  from stories_run_origin [OF assms(1)]
  have origin: "\<exists>s0 now0 insertedAt0. CreateStory s0 now0 insertedAt0 \<in> set ops \<and>
            story_expiresAt r = now0 + 86400000"
    by (simp add: empty_db_def)
  show ?thesis
    using same origin stories_exec [of x d]
    by (simp add: createStory_def Let_def eq_commute [of now insertedAt])
qed

theorem story_expiresAt_fixed_witness:
  "story_row 1 1002 86401000 \<in> set (stories (run [CreateStory story_a 1000 1002] empty_db)) \<and>
   story_row 1 1002 86401000 \<in> set (stories (run [CreateStory story_a 2000 2001, DeleteExpiredStories 3000]
      (run [CreateStory story_a 1000 1002] empty_db))) \<and>
   story_expiresAt (fst (createStory story_a 1000 1002 empty_db)) = 1000 + 86400000 \<and>
   story_expiresAt (story_row 1 1002 86401000) = 1000 + 86400000"
proof -
  have a: "story_row 1 1002 86401000 \<in> set (stories (run [CreateStory story_a 1000 1002] empty_db))"
    by (simp add: createStory_def Let_def empty_db_def story_row_def story_a_def)
  have b: "story_row 1 1002 86401000 \<in>
      set (stories (run [CreateStory story_a 2000 2001, DeleteExpiredStories 3000]
        (run [CreateStory story_a 1000 1002] empty_db)))"
    by (simp add: createStory_def Let_def empty_db_def story_row_def story_a_def
        deleteExpiredStories_def)
  show ?thesis
    using a b story_expiresAt_fixed [OF a b refl, of story_a 1000 1002 empty_db
        "DeleteExpiredStories 0"]
    by (simp add: story_row_def)
qed

subsection \<open>Active stories\<close>

text \<open>
  Claim C8. A story whose \<^verbatim>\<open>expiresAt\<close> is before \<open>now\<close> is in no answer of
  \<^verbatim>\<open>GET /api/stories\<close>, whatever the state of the store, and is not in the table after
  the sweep. With the store available, the answer holds exactly the stories with
  \<^verbatim>\<open>expiresAt\<close> strictly after \<open>now\<close>, newest first, each with the user that
  \<^verbatim>\<open>getUser\<close> finds for its \<^verbatim>\<open>userId\<close>; the sweep keeps exactly the stories whose
  \<^verbatim>\<open>expiresAt\<close> is not before \<open>now\<close>.
\<close>

theorem expired_story_hidden_and_swept:
  assumes "story_expiresAt s < now"
  shows "s \<notin> set (response_stories (get_stories now st)) \<and>
         s \<notin> set (stories (deleteExpiredStories now d)) \<and>
         set (response_stories (get_stories now (Available d))) =
           {r \<in> set (stories d). now < story_expiresAt r} \<and>
         sorted_wrt (\<lambda>a b. story_createdAt b \<le> story_createdAt a)
           (response_stories (get_stories now (Available d))) \<and>
         get_stories now (Available d) =
           Response 200 (StoriesWithUsers
             (map (\<lambda>r. \<lparr>swu_story = r, swu_user = getUser (story_userId r) d\<rparr>)
                  (response_stories (get_stories now (Available d))))) \<and>
         stories (deleteExpiredStories now d) = filter (\<lambda>r. now \<le> story_expiresAt r) (stories d)"
proof -
  have rs: "response_stories (get_stories now (Available d)) = getActiveStories now d"
    by (simp add: response_stories_def get_stories_def comp_def)
  have "s \<notin> set (response_stories (get_stories now st))"
  proof (cases st)
    case Unavailable
    then show ?thesis by (simp add: response_stories_def get_stories_def)
  next
    case (Available d')
    then show ?thesis
      using assms by (simp add: response_stories_def get_stories_def comp_def getActiveStories_def)
  qed
  moreover have "s \<notin> set (stories (deleteExpiredStories now d))"
    using assms by (simp add: deleteExpiredStories_def)
  moreover have "set (getActiveStories now d) = {r \<in> set (stories d). now < story_expiresAt r}"
    by (auto simp add: getActiveStories_def)
  moreover have "sorted_wrt (\<lambda>a b. story_createdAt b \<le> story_createdAt a) (getActiveStories now d)"
    unfolding getActiveStories_def by (rule sorted_orderBy_desc)
  moreover have "get_stories now (Available d) =
           Response 200 (StoriesWithUsers
             (map (\<lambda>r. \<lparr>swu_story = r, swu_user = getUser (story_userId r) d\<rparr>)
                  (getActiveStories now d)))"
    by (simp add: get_stories_def)
  moreover have "stories (deleteExpiredStories now d) =
      filter (\<lambda>r. now \<le> story_expiresAt r) (stories d)"
    by (simp add: deleteExpiredStories_def not_less)
  ultimately show ?thesis
    unfolding rs by blast
qed

theorem expired_story_hidden_and_swept_witness:
  "story_expiresAt (story_row 1 100 900) < 1000 \<and>
   story_row 1 100 900 \<in> set (stories stories_db) \<and>
   response_stories (get_stories 1000 (Available stories_db)) =
     [story_row 3 300 1200, story_row 2 200 1100] \<and>
   stories (deleteExpiredStories 1000 stories_db) = [story_row 2 200 1100, story_row 3 300 1200]"
proof -
  have a: "story_expiresAt (story_row 1 100 900) < 1000"
    by (simp add: story_row_def)
  show ?thesis
    using a expired_story_hidden_and_swept [OF a, of "Available stories_db" stories_db]
    by (simp add: stories_db_def empty_db_def story_row_def response_stories_def
        get_stories_def getActiveStories_def orderBy_desc_def deleteExpiredStories_def comp_def)
qed

subsection \<open>The admin check\<close>

lemma isAdmin_cases:
  "isAdmin s sub =
     (case s of
        Unavailable \<Rightarrow> Answered (Response 500 (Message ''Failed to check admin status''))
      | Available d \<Rightarrow>
          (case getUser sub d of
             None \<Rightarrow> Answered (Response 403 (Message ''Admin access required''))
           | Some u \<Rightarrow>
               if user_isAdmin u = Some True then Next
               else Answered (Response 403 (Message ''Admin access required''))))"
  by (simp add: isAdmin_def await_def split: store.splits option.splits)

text \<open>
  Claim C1. On an admin route (\<^verbatim>\<open>GET /api/admin/users\<close>, \<^verbatim>\<open>POST /api/admin/verify-user\<close>)
  called by an authenticated caller \<open>sub\<close>, the check loads the caller's user record.
  When the lookup raises, the answer is the 500 of the check and the handler is not called
  (the check does not reach \<^verbatim>\<open>next()\<close>, and the answer is the same for every handler).
  When there is no record, or its \<^verbatim>\<open>isAdmin\<close> is not \<^verbatim>\<open>true\<close> (unset or false), the
  answer is 403, again without the handler. The check calls \<^verbatim>\<open>next()\<close> exactly when the
  lookup returned a record with \<^verbatim>\<open>isAdmin\<close> set; only then does the handler answer.
\<close>

theorem admin_check:
  "(s = Unavailable \<longrightarrow>
      isAdmin s sub = Answered (Response 500 (Message ''Failed to check admin status'')) \<and>
      admin_route handler s sub req =
        (Response 500 (Message ''Failed to check admin status''), s)) \<and>
   (\<forall>d. s = Available d \<and>
        (getUser sub d = None \<or> (\<exists>u. getUser sub d = Some u \<and> user_isAdmin u \<noteq> Some True)) \<longrightarrow>
      isAdmin s sub = Answered (Response 403 (Message ''Admin access required'')) \<and>
      admin_route handler s sub req = (Response 403 (Message ''Admin access required''), s)) \<and>
   (\<forall>d u. s = Available d \<and> getUser sub d = Some u \<and> user_isAdmin u = Some True \<longrightarrow>
      isAdmin s sub = Next \<and> admin_route handler s sub req = handler s req) \<and>
   (isAdmin s sub = Next \<longleftrightarrow>
      (\<exists>d u. s = Available d \<and> getUser sub d = Some u \<and> user_isAdmin u = Some True)) \<and>
   get_admin_users s sub query = admin_route admin_users_handler s sub query \<and>
   post_admin_verify_user now s sub userId =
     admin_route (admin_verify_user_handler now) s sub userId"
  by (cases s)
     (auto simp add: isAdmin_cases admin_route_def get_admin_users_def
       post_admin_verify_user_def split: option.splits)

theorem admin_check_witness:
  "getUser ''bob'' users_db = Some (user_row ''bob'' (Some False)) \<and>
   get_admin_users (Available users_db) ''bob'' (None, None) =
     (Response 403 (Message ''Admin access required''), Available users_db) \<and>
   getUser ''carol'' users_db = Some (user_row ''carol'' None) \<and>
   get_admin_users (Available users_db) ''carol'' (None, None) =
     (Response 403 (Message ''Admin access required''), Available users_db) \<and>
   getUser ''dave'' users_db = None \<and>
   get_admin_users (Available users_db) ''dave'' (None, None) =
     (Response 403 (Message ''Admin access required''), Available users_db) \<and>
   get_admin_users Unavailable ''root'' (None, None) =
     (Response 500 (Message ''Failed to check admin status''), Unavailable) \<and>
   getUser ''root'' users_db = Some (user_row ''root'' (Some True)) \<and>
   get_admin_users (Available users_db) ''root'' (None, None) =
     admin_users_handler (Available users_db) (None, None) \<and>
   status_of (fst (get_admin_users (Available users_db) ''root'' (None, None))) = 200"
proof -
  have u: "getUser ''bob'' users_db = Some (user_row ''bob'' (Some False))"
    "getUser ''carol'' users_db = Some (user_row ''carol'' None)"
    "getUser ''dave'' users_db = None"
    "getUser ''root'' users_db = Some (user_row ''root'' (Some True))"
    by (simp_all add: getUser_def users_db_def empty_db_def user_row_def first_row_def)
  have f: "user_isAdmin (user_row ''bob'' (Some False)) \<noteq> Some True"
    "user_isAdmin (user_row ''carol'' None) \<noteq> Some True"
    "user_isAdmin (user_row ''root'' (Some True)) = Some True"
    by (simp_all add: user_row_def)
  have ok: "status_of (fst (admin_users_handler (Available users_db) (None, None))) = 200"
    by (simp add: admin_users_handler_def parseInt_def is_digit_def digit_value_def
        isStrWhiteSpace_def or_default_def getAllUsers_def limit_offset_def status_of_def Let_def)
  show ?thesis
    using u f ok
      admin_check [of "Available users_db" "''bob''" admin_users_handler "(None, None)"
        "(None, None)" 0 "''x''"]
      admin_check [of "Available users_db" "''carol''" admin_users_handler "(None, None)"
        "(None, None)" 0 "''x''"]
      admin_check [of "Available users_db" "''dave''" admin_users_handler "(None, None)"
        "(None, None)" 0 "''x''"]
      admin_check [of "Available users_db" "''root''" admin_users_handler "(None, None)"
        "(None, None)" 0 "''x''"]
      admin_check [of Unavailable "''root''" admin_users_handler "(None, None)"
        "(None, None)" 0 "''x''"]
    by simp
qed

subsection \<open>Creating a post\<close>

text \<open>
  Claim C4 says that a request with the image but without a body field that the schema
  requires is answered with 400. With a schema that requires the caption, such a request is
  answered with 500: \<^verbatim>\<open>insertPostSchema.parse\<close> raises inside the \<^verbatim>\<open>try\<close>, and the
  \<^verbatim>\<open>catch\<close> answers every error with 500.
\<close>

theorem post_posts_missing_schema_field_counterexample:
  "status_of (fst (post_posts (insertPostSchema_parse True False) 0 (Available empty_db)
      (upload_request None (Some ''f1'')))) = 500"
  by (simp add: post_posts_def insertPostSchema_parse_def upload_request_def status_of_def)

text \<open>
  Claim C4, amended. For every authenticated \<^verbatim>\<open>POST /api/posts\<close> request: without the
  uploaded image the answer is 400 (\<^verbatim>\<open>Image is required\<close>); with the image, when the
  schema rejects the input (so when a body field it requires is missing) the answer is
  500 (\<^verbatim>\<open>Failed to create post\<close>); in both cases, and whenever the answer is not 200,
  the store is unchanged. With the image, an input the schema accepts and the store
  available, the new post is appended to the posts table and returned, with the fields of
  the parsed input. This holds for every schema \<open>parse\<close>.
\<close>

theorem post_posts_outcomes:
  "(req_file req = None \<longrightarrow>
      post_posts parse now s req = (Response 400 (Message ''Image is required''), s)) \<and>
   (\<forall>filename e.
      req_file req = Some filename \<and>
      parse \<lparr>raw_userId = req_sub req, raw_caption = req_caption req,
             raw_location = req_location req, raw_imageUrl = ''/uploads/'' @ filename\<rparr> = Inl e \<longrightarrow>
      post_posts parse now s req = (Response 500 (Message ''Failed to create post''), s)) \<and>
   (\<forall>filename.
      req_file req = Some filename \<and>
      ((caption_required \<and> req_caption req = None) \<or>
       (location_required \<and> req_location req = None)) \<longrightarrow>
      post_posts (insertPostSchema_parse caption_required location_required) now s req =
        (Response 500 (Message ''Failed to create post''), s)) \<and>
   (\<forall>filename postData d.
      req_file req = Some filename \<and>
      parse \<lparr>raw_userId = req_sub req, raw_caption = req_caption req,
             raw_location = req_location req, raw_imageUrl = ''/uploads/'' @ filename\<rparr> =
        Inr postData \<and>
      s = Available d \<longrightarrow>
      post_posts parse now s req =
        (Response 200 (PostJson (fst (createPost postData now d))),
         Available (snd (createPost postData now d))) \<and>
      posts (snd (createPost postData now d)) = posts d @ [fst (createPost postData now d)] \<and>
      post_userId (fst (createPost postData now d)) = new_post_userId postData \<and>
      post_imageUrl (fst (createPost postData now d)) = new_post_imageUrl postData \<and>
      post_caption (fst (createPost postData now d)) = new_post_caption postData \<and>
      post_location (fst (createPost postData now d)) = new_post_location postData) \<and>
   (status_of (fst (post_posts parse now s req)) \<noteq> 200 \<longrightarrow>
      snd (post_posts parse now s req) = s)"
  by (cases s)
     (auto simp add: post_posts_def insertPostSchema_parse_def createPost_def Let_def
       status_of_def split: option.splits sum.splits prod.splits)

theorem post_posts_outcomes_witness:
  "post_posts (insertPostSchema_parse True False) 7 (Available empty_db)
     (upload_request (Some ''hello #world'') None) =
     (Response 400 (Message ''Image is required''), Available empty_db) \<and>
   post_posts (insertPostSchema_parse True False) 7 (Available empty_db)
     (upload_request None (Some ''f1'')) =
     (Response 500 (Message ''Failed to create post''), Available empty_db) \<and>
   fst (post_posts (insertPostSchema_parse True False) 7 (Available empty_db)
     (upload_request (Some ''hello #world'') (Some ''f1''))) =
     Response 200 (PostJson \<lparr>post_id = 1, post_userId = ''alice'',
       post_caption = Some ''hello #world'', post_imageUrl = ''/uploads/f1'',
       post_location = None, post_createdAt = 7\<rparr>)"
proof -
  have a: "req_file (upload_request (Some ''hello #world'') None) = None"
    by (simp add: upload_request_def)
  have b: "req_file (upload_request None (Some ''f1'')) = Some ''f1'' \<and>
           ((True \<and> req_caption (upload_request None (Some ''f1'')) = None) \<or>
            (False \<and> req_location (upload_request None (Some ''f1'')) = None))"
    by (simp add: upload_request_def)
  have c: "req_file (upload_request (Some ''hello #world'') (Some ''f1'')) = Some ''f1'' \<and>
      insertPostSchema_parse True False
        \<lparr>raw_userId = req_sub (upload_request (Some ''hello #world'') (Some ''f1'')),
         raw_caption = req_caption (upload_request (Some ''hello #world'') (Some ''f1'')),
         raw_location = req_location (upload_request (Some ''hello #world'') (Some ''f1'')),
         raw_imageUrl = ''/uploads/'' @ ''f1''\<rparr> =
      Inr \<lparr>new_post_userId = ''alice'', new_post_caption = Some ''hello #world'',
           new_post_imageUrl = ''/uploads/f1'', new_post_location = None\<rparr> \<and>
      Available empty_db = Available empty_db"
    by (simp add: upload_request_def insertPostSchema_parse_def)
  have p: "fst (createPost \<lparr>new_post_userId = ''alice'', new_post_caption = Some ''hello #world'',
           new_post_imageUrl = ''/uploads/f1'', new_post_location = None\<rparr> 7 empty_db) =
     \<lparr>post_id = 1, post_userId = ''alice'',
       post_caption = Some ''hello #world'', post_imageUrl = ''/uploads/f1'',
       post_location = None, post_createdAt = 7\<rparr>"
    by (simp add: createPost_def empty_db_def Let_def)
  note t = post_posts_outcomes [of _ "insertPostSchema_parse True False" 7 "Available empty_db"
      True False]
  from t [of "upload_request (Some ''hello #world'') None"] a
  have 1: "post_posts (insertPostSchema_parse True False) 7 (Available empty_db)
     (upload_request (Some ''hello #world'') None) =
     (Response 400 (Message ''Image is required''), Available empty_db)"
    by blast
  from t [of "upload_request None (Some ''f1'')"] b
  have 2: "post_posts (insertPostSchema_parse True False) 7 (Available empty_db)
     (upload_request None (Some ''f1'')) =
     (Response 500 (Message ''Failed to create post''), Available empty_db)"
    by blast
  from t [of "upload_request (Some ''hello #world'') (Some ''f1'')"] c
  have "post_posts (insertPostSchema_parse True False) 7 (Available empty_db)
     (upload_request (Some ''hello #world'') (Some ''f1'')) =
      (Response 200 (PostJson (fst (createPost \<lparr>new_post_userId = ''alice'',
           new_post_caption = Some ''hello #world'',
           new_post_imageUrl = ''/uploads/f1'', new_post_location = None\<rparr> 7 empty_db))),
         Available (snd (createPost \<lparr>new_post_userId = ''alice'',
           new_post_caption = Some ''hello #world'',
           new_post_imageUrl = ''/uploads/f1'', new_post_location = None\<rparr> 7 empty_db)))"
    by blast
  with p have 3: "fst (post_posts (insertPostSchema_parse True False) 7 (Available empty_db)
     (upload_request (Some ''hello #world'') (Some ''f1''))) =
     Response 200 (PostJson \<lparr>post_id = 1, post_userId = ''alice'',
       post_caption = Some ''hello #world'', post_imageUrl = ''/uploads/f1'',
       post_location = None, post_createdAt = 7\<rparr>)"
    by simp
  from 1 2 3 show ?thesis by blast
qed

subsection \<open>The feed\<close>

lemma parseInt_undefined: "parseInt None = None"
  by (simp add: parseInt_def isStrWhiteSpace_def is_digit_def digit_value_def)

lemma parseInt_zero: "parseInt (Some ''0'') = Some 0"
  by (simp add: parseInt_def isStrWhiteSpace_def is_digit_def digit_value_def digits_value_def)

lemma response_posts_get_posts:
  "0 \<le> or_default (parseInt query_limit) 20 \<Longrightarrow> or_default (parseInt query_limit) 20 < 2 ^ 63 \<Longrightarrow>
   0 \<le> or_default (parseInt query_offset) 0 \<Longrightarrow> or_default (parseInt query_offset) 0 < 2 ^ 63 \<Longrightarrow>
   get_posts (Available d) query_limit query_offset =
     Response 200 (PostsWithData (map (post_data d)
       (take (nat (or_default (parseInt query_limit) 20))
          (drop (nat (or_default (parseInt query_offset) 0))
             (orderBy_desc post_createdAt (posts d))))))"
  by (simp add: get_posts_def getPosts_def limit_offset_def Let_def)

lemma getPosts_rows:
  assumes "getPosts lim off d = Inr page"
  shows "set page \<subseteq> set (posts d)"
proof -
  let ?skipped = "drop (nat off) (orderBy_desc post_createdAt (posts d))"
  have "set ?skipped \<subseteq> set (posts d)"
    using set_drop_subset [of "nat off" "orderBy_desc post_createdAt (posts d)"] by simp
  moreover have "set (take (nat lim) ?skipped) \<subseteq> set ?skipped"
    by (rule set_take_subset)
  moreover from assms have "page = ?skipped \<or> page = take (nat lim) ?skipped"
    by (auto simp add: getPosts_def limit_offset_def Let_def split: if_splits)
  ultimately show ?thesis by blast
qed

lemma pwd_post_post_data [simp]: "pwd_post (post_data d p) = p"
  by (simp add: post_data_def Let_def)

text \<open>
  Claim C5 says that for every limit the feed returns at most that many posts. For
  \<^verbatim>\<open>?limit=0\<close> it does not: \<^verbatim>\<open>parseInt("0") || 20\<close> is 20, and a store with one post
  answers with that post.
\<close>

theorem get_posts_limit_zero_counterexample:
  "parseInt (Some ''0'') = Some 0 \<and>
   length (response_posts (get_posts (Available liked_db) (Some ''0'') None)) = 1"
  by (simp add: parseInt_zero parseInt_undefined get_posts_def getPosts_def limit_offset_def
      or_default_def response_posts_def liked_db_def empty_db_def orderBy_desc_def)

text \<open>
  Claim C5, amended. \<^verbatim>\<open>GET /api/posts\<close> takes as limit the number that \<^verbatim>\<open>parseInt\<close>
  reads from the query parameter, and 20 when the parameter is absent, not a number, or 0; as
  offset the number read, and 0 when it is absent or not a number. For a limit from 1 and an
  offset from 0, both below \<open>2^53\<close> (the integers that \<^verbatim>\<open>parseInt\<close> reads exactly), the
  answer of an available store is a 200 with at most limit posts: the posts ordered by
  creation time descending, without the first offset of them.
\<close>

theorem get_posts_page:
  "(let limit = or_default (parseInt query_limit) 20;
        offset = or_default (parseInt query_offset) 0;
        r = get_posts (Available d) query_limit query_offset
    in (0 \<le> limit \<and> limit < 2 ^ 53 \<and> 0 \<le> offset \<and> offset < 2 ^ 53 \<longrightarrow>
          status_of r = 200 \<and>
          length (response_posts r) \<le> nat limit \<and>
          sorted_wrt (\<lambda>a b. post_createdAt b \<le> post_createdAt a) (map pwd_post (response_posts r)) \<and>
          (\<exists>ordered. mset ordered = mset (posts d) \<and>
             sorted_wrt (\<lambda>a b. post_createdAt b \<le> post_createdAt a) ordered \<and>
             map pwd_post (response_posts r) = take (nat limit) (drop (nat offset) ordered))) \<and>
       limit = (case parseInt query_limit of None \<Rightarrow> 20 | Some n \<Rightarrow> if n = 0 then 20 else n) \<and>
       offset = (case parseInt query_offset of None \<Rightarrow> 0 | Some n \<Rightarrow> n)) \<and>
   parseInt None = None"
proof -
  define limit where "limit = or_default (parseInt query_limit) 20"
  define offset where "offset = or_default (parseInt query_offset) 0"
  define r where "r = get_posts (Available d) query_limit query_offset"
  define ordered where "ordered = orderBy_desc post_createdAt (posts d)"
  have so: "sorted_wrt (\<lambda>a b. post_createdAt b \<le> post_createdAt a) ordered"
    unfolding ordered_def by (rule sorted_orderBy_desc)
  have ok: "status_of r = 200 \<and>
          length (response_posts r) \<le> nat limit \<and>
          sorted_wrt (\<lambda>a b. post_createdAt b \<le> post_createdAt a) (map pwd_post (response_posts r)) \<and>
          (\<exists>ordered. mset ordered = mset (posts d) \<and>
             sorted_wrt (\<lambda>a b. post_createdAt b \<le> post_createdAt a) ordered \<and>
             map pwd_post (response_posts r) = take (nat limit) (drop (nat offset) ordered))"
    if nn: "0 \<le> limit" "limit < 2 ^ 53" "0 \<le> offset" "offset < 2 ^ 53"
  proof -
    from nn have range: "limit < 2 ^ 63" "offset < 2 ^ 63"
      by simp_all
    have r: "r = Response 200 (PostsWithData (map (post_data d)
        (take (nat limit) (drop (nat offset) ordered))))"
      using nn(1) range(1) nn(3) range(2) unfolding r_def limit_def offset_def ordered_def
      by (rule response_posts_get_posts)
    have m: "map pwd_post (response_posts r) = take (nat limit) (drop (nat offset) ordered)"
      by (simp add: r response_posts_def comp_def)
    have "sorted_wrt (\<lambda>a b. post_createdAt b \<le> post_createdAt a)
            (take (nat limit) (drop (nat offset) ordered))"
      using so by (simp add: sorted_wrt_take sorted_wrt_drop)
    moreover have "length (response_posts r) \<le> nat limit"
      by (simp add: r response_posts_def)
    moreover have "status_of r = 200"
      by (simp add: r status_of_def)
    moreover have "mset ordered = mset (posts d)"
      by (simp add: ordered_def)
    ultimately show ?thesis
      using m so by auto
  qed
  have l: "limit = (case parseInt query_limit of None \<Rightarrow> 20 | Some n \<Rightarrow> if n = 0 then 20 else n)"
    and o: "offset = (case parseInt query_offset of None \<Rightarrow> 0 | Some n \<Rightarrow> n)"
    by (simp_all add: limit_def offset_def or_default_def split: option.splits)
  from ok l o parseInt_undefined show ?thesis
    unfolding Let_def limit_def offset_def r_def by blast
qed

theorem get_posts_page_witness:
  "or_default (parseInt (Some ''3'')) 20 = 3 \<and> or_default (parseInt (Some ''1'')) 0 = 1 \<and>
   or_default (parseInt None) 20 = 20 \<and> or_default (parseInt None) 0 = 0 \<and>
   (0::int) \<le> 3 \<and> (3::int) < 2 ^ 53 \<and> (0::int) \<le> 1 \<and> (1::int) < 2 ^ 53 \<and>
   status_of (get_posts (Available busy_db) (Some ''3'') (Some ''1'')) = 200 \<and>
   length (response_posts (get_posts (Available busy_db) (Some ''3'') (Some ''1''))) \<le> 3 \<and>
   map pwd_post (response_posts (get_posts (Available busy_db) (Some ''3'') (Some ''1''))) = [] \<and>
   map pwd_post (response_posts (get_posts (Available busy_db) None None)) = [alice_post]"
proof -
  have p: "parseInt (Some ''3'') = Some 3" "parseInt (Some ''1'') = Some 1"
    by (simp_all add: parseInt_def isStrWhiteSpace_def is_digit_def digit_value_def
        digits_value_def)
  have d: "or_default (parseInt (Some ''3'')) 20 = 3" "or_default (parseInt (Some ''1'')) 0 = 1"
    "or_default (parseInt None) 20 = 20" "or_default (parseInt None) 0 = 0"
    by (simp_all add: p parseInt_undefined or_default_def)
  have e: "map pwd_post (response_posts (get_posts (Available busy_db) None None)) = [alice_post]"
    "map pwd_post (response_posts (get_posts (Available busy_db) (Some ''3'') (Some ''1''))) = []"
    by (simp_all add: get_posts_def getPosts_def limit_offset_def d response_posts_def
        busy_db_def empty_db_def orderBy_desc_def)
  have h: "(0::int) \<le> 3 \<and> (3::int) < 2 ^ 53 \<and> (0::int) \<le> 1 \<and> (1::int) < 2 ^ 53"
    by simp
  note t1 = get_posts_page [of "Some ''3''" "Some ''1''" busy_db, unfolded Let_def d]
  from t1 h have a: "status_of (get_posts (Available busy_db) (Some ''3'') (Some ''1'')) = 200"
    and b: "length (response_posts (get_posts (Available busy_db) (Some ''3'') (Some ''1''))) \<le> 3"
    by simp_all
  from a b d e h show ?thesis by blast
qed

lemma getUser_Some: "getUser i d = Some u \<Longrightarrow> u \<in> set (users d) \<and> user_id u = i"
proof -
  assume "getUser i d = Some u"
  then obtain rest where "filter (\<lambda>u. user_id u = i) (users d) = u # rest"
    by (auto simp add: getUser_def first_row_def split: list.splits)
  then have "u \<in> set (filter (\<lambda>u. user_id u = i) (users d))"
    by simp
  then show ?thesis by simp
qed

lemma getUser_None: "getUser i d = None \<Longrightarrow> i \<notin> user_id ` set (users d)"
  by (auto simp add: getUser_def first_row_def filter_empty_conv split: list.splits)

lemma post_data_comments:
  "pwd_comments (post_data d p) =
     take 3 (orderBy_desc comment_createdAt
       (filter (\<lambda>c. comment_postId c = post_id p) (comments d)))"
  and post_data_commentCount:
  "pwd_commentCount (post_data d p) =
     length (filter (\<lambda>c. comment_postId c = post_id p) (comments d))"
  and post_data_likeCount:
  "pwd_likeCount (post_data d p) = length (filter (\<lambda>l. like_postId l = post_id p) (likes d))"
  and post_data_user: "pwd_user (post_data d p) = getUser (post_userId p) d"
  by (simp_all add: post_data_def Let_def getCommentsByPostId_def getLikeCount_def)

lemma response_posts_from_store:
  assumes "e \<in> set (response_posts (get_posts s query_limit query_offset))"
  shows "\<exists>d p. s = Available d \<and> p \<in> set (posts d) \<and> e = post_data d p"
proof (cases s)
  case Unavailable
  with assms show ?thesis
    by (simp add: get_posts_def response_posts_def Let_def)
next
  case (Available d)
  let ?l = "or_default (parseInt query_limit) 20"
  let ?k = "or_default (parseInt query_offset) 0"
  show ?thesis
  proof (cases "getPosts ?l ?k d")
    case (Inl err)
    with assms Available show ?thesis
      by (simp add: get_posts_def response_posts_def Let_def)
  next
    case (Inr page)
    with assms Available obtain p where "p \<in> set page" and "e = post_data d p"
      by (auto simp add: get_posts_def response_posts_def Let_def)
    moreover from this(1) getPosts_rows [OF Inr] have "p \<in> set (posts d)"
      by blast
    ultimately show ?thesis using Available by blast
  qed
qed

text \<open>
  Claim C6. Every entry of an answer of \<^verbatim>\<open>GET /api/posts\<close> is a post of the store
  together with: the user that \<^verbatim>\<open>getUser\<close> finds for the post's \<^verbatim>\<open>userId\<close> (a user row
  with that id, or none when there is no such row); the number of like rows of the post; the
  number of all comment rows of the post; and at most three comments (three, or all when
  there are fewer), newest first, which are the most recent ones of the post: the comments
  of the post that are left out are no newer than any that is returned.
\<close>

theorem get_posts_enrichment:
  assumes "e \<in> set (response_posts (get_posts s query_limit query_offset))"
  shows "\<exists>d. s = Available d \<and>
     pwd_post e \<in> set (posts d) \<and>
     pwd_user e = getUser (post_userId (pwd_post e)) d \<and>
     (case pwd_user e of
        Some u \<Rightarrow> u \<in> set (users d) \<and> user_id u = post_userId (pwd_post e)
      | None \<Rightarrow> post_userId (pwd_post e) \<notin> user_id ` set (users d)) \<and>
     pwd_likeCount e = length (filter (\<lambda>l. like_postId l = post_id (pwd_post e)) (likes d)) \<and>
     pwd_commentCount e =
       length (filter (\<lambda>c. comment_postId c = post_id (pwd_post e)) (comments d)) \<and>
     length (pwd_comments e) = min 3 (pwd_commentCount e) \<and>
     sorted_wrt (\<lambda>a b. comment_createdAt b \<le> comment_createdAt a) (pwd_comments e) \<and>
     (\<exists>older.
        mset (pwd_comments e @ older) =
          mset (filter (\<lambda>c. comment_postId c = post_id (pwd_post e)) (comments d)) \<and>
        (\<forall>r \<in> set (pwd_comments e). \<forall>c \<in> set older.
           comment_createdAt c \<le> comment_createdAt r))"
proof -
  from response_posts_from_store [OF assms] obtain d p
    where s: "s = Available d" and p: "p \<in> set (posts d)" and e: "e = post_data d p"
    by blast
  define own where "own = filter (\<lambda>c. comment_postId c = post_id p) (comments d)"
  define ordered where "ordered = orderBy_desc comment_createdAt own"
  have so: "sorted_wrt (\<lambda>a b. comment_createdAt b \<le> comment_createdAt a) ordered"
    unfolding ordered_def by (rule sorted_orderBy_desc)
  have c: "pwd_comments e = take 3 ordered"
    by (simp add: e post_data_comments ordered_def own_def)
  have n: "pwd_commentCount e = length own"
    by (simp add: e post_data_commentCount own_def)
  have u: "case pwd_user e of
        Some u \<Rightarrow> u \<in> set (users d) \<and> user_id u = post_userId (pwd_post e)
      | None \<Rightarrow> post_userId (pwd_post e) \<notin> user_id ` set (users d)"
    using getUser_Some [of "post_userId p" d] getUser_None [of "post_userId p" d]
    by (simp add: e post_data_user split: option.splits)
  have len: "length (pwd_comments e) = min 3 (pwd_commentCount e)"
    by (simp add: c n ordered_def)
  have sorted: "sorted_wrt (\<lambda>a b. comment_createdAt b \<le> comment_createdAt a) (pwd_comments e)"
    using so by (simp add: c sorted_wrt_take)
  have "mset (pwd_comments e @ drop 3 ordered) = mset own"
    by (simp add: c ordered_def del: mset_append)
  moreover have "\<forall>r \<in> set (pwd_comments e). \<forall>c \<in> set (drop 3 ordered).
      comment_createdAt c \<le> comment_createdAt r"
    using sorted_wrt_take_drop [OF so] by (simp add: c)
  ultimately have older: "\<exists>older.
        mset (pwd_comments e @ older) = mset own \<and>
        (\<forall>r \<in> set (pwd_comments e). \<forall>c \<in> set older.
           comment_createdAt c \<le> comment_createdAt r)"
    by blast
  have "pwd_post e = p" by (simp add: e)
  with s p u len sorted older n show ?thesis
    by (simp add: own_def e post_data_user post_data_likeCount)
qed

theorem get_posts_enrichment_witness:
  "post_data busy_db alice_post \<in> set (response_posts (get_posts (Available busy_db) None None)) \<and>
   pwd_user (post_data busy_db alice_post) = Some (user_row ''alice'' (Some False)) \<and>
   pwd_likeCount (post_data busy_db alice_post) = 2 \<and>
   pwd_commentCount (post_data busy_db alice_post) = 4 \<and>
   pwd_comments (post_data busy_db alice_post) =
     [comment_row 2 1 40, comment_row 5 1 30, comment_row 4 1 20]"
proof -
  have a: "post_data busy_db alice_post \<in>
      set (response_posts (get_posts (Available busy_db) None None))"
    by (simp add: get_posts_def getPosts_def limit_offset_def parseInt_undefined or_default_def
        response_posts_def busy_db_def empty_db_def orderBy_desc_def)
  have b: "pwd_user (post_data busy_db alice_post) = Some (user_row ''alice'' (Some False))"
    by (simp add: post_data_user getUser_def busy_db_def empty_db_def alice_post_def
        user_row_def first_row_def)
  have c: "pwd_comments (post_data busy_db alice_post) =
     [comment_row 2 1 40, comment_row 5 1 30, comment_row 4 1 20]"
    by (simp add: post_data_comments busy_db_def empty_db_def alice_post_def comment_row_def
        orderBy_desc_def)
  have d: "pwd_likeCount (post_data busy_db alice_post) = 2"
    "pwd_commentCount (post_data busy_db alice_post) = 4"
    by (simp_all add: post_data_likeCount post_data_commentCount busy_db_def empty_db_def
        alice_post_def comment_row_def)
  from get_posts_enrichment [OF a] obtain d0 where "Available busy_db = Available d0"
    by blast
  with a b c d show ?thesis by blast
qed

subsection \<open>Trending hashtags\<close>

















end
